theory Spec2Isabelle
  imports Main "HOL-Library.Sublist" "HOL-Library.AList"
begin

section \<open>Python values\<close>

text \<open>
  A Python \<open>str\<close> is a sequence of Unicode code points; it is modelled as the list of
  their numbers, so that the length in characters (\<open>len(s)\<close>) and the length of the
  UTF-8 encoding (\<open>len(s.encode('utf-8'))\<close>) are both available and differ outside
  ASCII. \<open>ascii\<close> writes a literal.
\<close>

type_synonym codepoint = nat
type_synonym str = "codepoint list"

definition ascii :: "string \<Rightarrow> str" where
  "ascii s = map of_char s"

text \<open>
  The exceptions the modelled code can raise, as values; \<open>PyException m\<close> is
  \<open>Exception(m)\<close> and \<open>HTTPException status detail\<close> the exception of FastAPI.
\<close>

datatype error =
    ValueError
  | TypeError
  | AttributeError
  | KeyError
  | UnicodeEncodeError
  | UnicodeDecodeError
  | JSONDecodeError
  | PyException str
  | HTTPException nat str

text \<open>
  \<open>len(s.encode('utf-8'))\<close>: one to four bytes per code point. Encoding raises
  \<open>UnicodeEncodeError\<close> on a surrogate code point (a \<open>str\<close> may hold one, for instance
  from the JSON escape \<open>\ud800\<close>).
\<close>

definition utf8_width :: "codepoint \<Rightarrow> nat" where
  "utf8_width c =
     (if c < 0x80 then 1 else if c < 0x800 then 2 else if c < 0x10000 then 3 else 4)"

definition utf8_len :: "str \<Rightarrow> nat" where
  "utf8_len s = sum_list (map utf8_width s)"

definition is_surrogate :: "codepoint \<Rightarrow> bool" where
  "is_surrogate c = (0xD800 \<le> c \<and> c \<le> 0xDFFF)"

text \<open>
  The characters \<open>str.strip()\<close> removes and the regular expression class \<open>\s\<close> matches
  on a \<open>str\<close>: those for which \<open>str.isspace()\<close> holds.
\<close>

definition is_space :: "codepoint \<Rightarrow> bool" where
  "is_space c =
     ((0x09 \<le> c \<and> c \<le> 0x0D) \<or> (0x1C \<le> c \<and> c \<le> 0x20) \<or> c = 0x85 \<or> c = 0xA0
      \<or> c = 0x1680 \<or> (0x2000 \<le> c \<and> c \<le> 0x200A) \<or> c = 0x2028 \<or> c = 0x2029
      \<or> c = 0x202F \<or> c = 0x205F \<or> c = 0x3000)"

definition strip :: "str \<Rightarrow> str" where
  "strip s = rev (dropWhile is_space (rev (dropWhile is_space s)))"

text \<open>The slice \<open>s[:n]\<close>; a negative \<open>n\<close> counts from the end.\<close>

definition slice_to :: "str \<Rightarrow> int \<Rightarrow> str" where
  "slice_to s n = (if 0 \<le> n then take (nat n) s else take (length s - nat (- n)) s)"

text \<open>
  \<open>s.split(sep)\<close> for a separator string: the pieces between the occurrences of \<open>sep\<close>,
  found left to right without overlap; always at least one piece.
\<close>

function split_from :: "str \<Rightarrow> str \<Rightarrow> str \<Rightarrow> str list" where
  "split_from sep acc [] = [acc]"
| "split_from sep acc (c # cs) =
     (if sep \<noteq> [] \<and> prefix sep (c # cs)
      then acc # split_from sep [] (drop (length sep) (c # cs))
      else split_from sep (acc @ [c]) cs)"
  by pat_completeness auto
termination
  by (relation "measure (\<lambda>(sep, acc, s). length s)") auto

definition str_split :: "str \<Rightarrow> str \<Rightarrow> str list" where
  "str_split s sep = split_from sep [] s"

text \<open>Decimal digits of a number, as \<open>str(n)\<close> and the f-string \<open>{n}\<close> print it.\<close>

function str_of_nat :: "nat \<Rightarrow> str" where
  "str_of_nat n = (if n < 10 then [48 + n] else str_of_nat (n div 10) @ [48 + n mod 10])"
  by pat_completeness auto
termination
  by (relation "measure (\<lambda>n. n)") auto

declare str_of_nat.simps [simp del]

definition str_of_int :: "int \<Rightarrow> str" where
  "str_of_int i = (if i < 0 then 45 # str_of_nat (nat (- i)) else str_of_nat (nat i))"

section \<open>Chunker (\<open>app/chatbot/rag.py\<close>, \<open>app/chatbot/jsonl_handler.py\<close>)\<close>

text \<open>
  \<open>re.split(r'(?<=[.!?])\s+', paragraph)\<close> in \<open>_chunk_text\<close>: the paragraph is cut at
  every maximal run of whitespace that directly follows \<open>.\<close>, \<open>!\<close> or \<open>?\<close>; the run is
  dropped. \<open>acc\<close> is the piece read so far, whose last character is the one the
  look-behind inspects.
\<close>

function re_split_from :: "str \<Rightarrow> str \<Rightarrow> str list" where
  "re_split_from acc [] = [acc]"
| "re_split_from acc (c # cs) =
     (if is_space c \<and> acc \<noteq> [] \<and> last acc \<in> set (ascii ''.!?'')
      then acc # re_split_from [] (dropWhile is_space cs)
      else re_split_from (acc @ [c]) cs)"
  by pat_completeness auto
termination
  by (relation "measure (\<lambda>(acc, s). length s)")
     (auto simp: le_imp_less_Suc length_dropWhile_le)

definition re_split_sentences :: "str \<Rightarrow> str list" where
  "re_split_sentences paragraph = re_split_from [] paragraph"

text \<open>
  The two chunkers are the same pair of nested loops over the state
  \<open>(chunks, current_chunk)\<close>; they differ in how a paragraph is cut into sentences and in
  the string that joins two sentences again (\<open>" "\<close> in \<open>_chunk_text\<close>, \<open>". "\<close> in
  \<open>chunk_large_text\<close>). \<open>sentence_step\<close> is the body of the inner loop and
  \<open>paragraph_step\<close> the body of the outer one. The size test measures
  \<open>current_chunk + piece\<close> in UTF-8 bytes, without the joining string; the forced split
  is the slice \<open>sentence[:max_size]\<close>, which counts characters.
\<close>

fun sentence_step :: "str \<Rightarrow> int \<Rightarrow> str list \<times> str \<Rightarrow> str \<Rightarrow> str list \<times> str" where
  "sentence_step joiner max_size (chunks, current_chunk) sentence =
     (if int (utf8_len (current_chunk @ sentence)) > max_size then
        (if current_chunk \<noteq> [] then (chunks @ [strip current_chunk], sentence)
         else (chunks @ [slice_to sentence max_size], current_chunk))
      else (chunks, if current_chunk \<noteq> [] then current_chunk @ joiner @ sentence
                    else sentence))"

fun paragraph_step ::
  "(str \<Rightarrow> str list) \<Rightarrow> str \<Rightarrow> int \<Rightarrow> str list \<times> str \<Rightarrow> str \<Rightarrow> str list \<times> str" where
  "paragraph_step sentences_of joiner max_size (chunks, current_chunk) paragraph =
     (if int (utf8_len (current_chunk @ paragraph)) > max_size then
        (if current_chunk \<noteq> [] then (chunks @ [strip current_chunk], paragraph)
         else foldl (sentence_step joiner max_size) (chunks, current_chunk)
                (sentences_of paragraph))
      else (chunks, if current_chunk \<noteq> []
                    then current_chunk @ ascii ''\<newline>\<newline>'' @ paragraph
                    else paragraph))"

definition chunk_loop :: "(str \<Rightarrow> str list) \<Rightarrow> str \<Rightarrow> str \<Rightarrow> int \<Rightarrow> str list" where
  "chunk_loop sentences_of joiner t max_size =
     (case foldl (paragraph_step sentences_of joiner max_size) ([], [])
             (str_split t (ascii ''\<newline>\<newline>'')) of
        (chunks, current_chunk) \<Rightarrow>
          if current_chunk \<noteq> [] then chunks @ [strip current_chunk] else chunks)"

text \<open>
  \<open>_chunk_text(text, chunk_size)\<close> of \<open>rag.py\<close>. Every paragraph of the text passes
  through \<open>.encode('utf-8')\<close> in the first test of the outer loop, so the call raises
  exactly when the text holds a surrogate.
\<close>

definition chunk_text :: "str \<Rightarrow> int \<Rightarrow> error + str list" where
  "chunk_text t chunk_size =
     (if list_ex is_surrogate t then Inl UnicodeEncodeError
      else Inr (chunk_loop re_split_sentences (ascii '' '') t chunk_size))"

text \<open>
  \<open>JSONLProcessor.chunk_large_text(text, max_chunk_size)\<close>: a text that fits is returned
  as it is, in one chunk.
\<close>

definition chunk_large_text :: "str \<Rightarrow> int \<Rightarrow> error + str list" where
  "chunk_large_text t max_chunk_size =
     (if list_ex is_surrogate t then Inl UnicodeEncodeError
      else if int (utf8_len t) \<le> max_chunk_size then Inr [t]
      else Inr (chunk_loop (\<lambda>paragraph. str_split paragraph (ascii ''. '')) (ascii ''. '')
                  t max_chunk_size))"

section \<open>JSON values and dictionaries\<close>

text \<open>
  The values \<open>json.loads\<close> produces, which are also the values a metadata dictionary
  can hold: \<open>None\<close>, \<open>bool\<close>, \<open>int\<close>, \<open>float\<close>, \<open>str\<close>, \<open>list\<close> and \<open>dict\<close>. A
  \<open>dict\<close> is an association list in insertion order with distinct keys. A \<open>float\<close> is
  kept as the literal it was read from: its IEEE value is not computed.
\<close>

datatype json =
    JNull
  | JBool bool
  | JInt int
  | JFloat str
  | JStr str
  | JArr "json list"
  | JObj "(str \<times> json) list"

type_synonym dict = "(str \<times> json) list"

text \<open>\<open>d[k] = v\<close>: an existing key keeps its place, a new key goes to the end.\<close>

definition dict_set :: "str \<Rightarrow> json \<Rightarrow> dict \<Rightarrow> dict" where
  "dict_set k v d = AList.update k v d"

definition is_digit :: "codepoint \<Rightarrow> bool" where
  "is_digit c = (48 \<le> c \<and> c \<le> 57)"

text \<open>
  Whether a float literal denotes a non-zero number: some digit of its mantissa is not
  \<open>0\<close>; the literals without digits are \<open>NaN\<close> and the infinities. (A literal so small
  that it rounds to zero is outside the model.)
\<close>

definition float_nonzero :: "str \<Rightarrow> bool" where
  "float_nonzero lexeme =
     (if list_ex is_digit lexeme
      then list_ex (\<lambda>c. 49 \<le> c \<and> c \<le> 57) (takeWhile (\<lambda>c. c \<noteq> 101 \<and> c \<noteq> 69) lexeme)
      else True)"

text \<open>Truth value of an object, as \<open>if x\<close>, \<open>x or y\<close> and \<open>not x\<close> test it.\<close>

fun truthy :: "json \<Rightarrow> bool" where
  "truthy JNull = False"
| "truthy (JBool b) = b"
| "truthy (JInt i) = (i \<noteq> 0)"
| "truthy (JFloat lexeme) = float_nonzero lexeme"
| "truthy (JStr s) = (s \<noteq> [])"
| "truthy (JArr xs) = (xs \<noteq> [])"
| "truthy (JObj kvs) = (kvs \<noteq> [])"

text \<open>\<open>isinstance(value, (str, int, float, bool))\<close>.\<close>

fun is_basic :: "json \<Rightarrow> bool" where
  "is_basic (JStr s) = True"
| "is_basic (JInt i) = True"
| "is_basic (JFloat lexeme) = True"
| "is_basic (JBool b) = True"
| "is_basic JNull = False"
| "is_basic (JArr xs) = False"
| "is_basic (JObj kvs) = False"

text \<open>\<open>sep.join(parts)\<close>.\<close>

fun str_join :: "str \<Rightarrow> str list \<Rightarrow> str" where
  "str_join sep [] = []"
| "str_join sep [p] = p"
| "str_join sep (p # q # ps) = p @ sep @ str_join sep (q # ps)"

section \<open>Ingestion (\<open>app/chatbot/rag.py\<close>, \<open>app/chatbot/jsonl_handler.py\<close>)\<close>

text \<open>
  One call of \<open>PineconeVectorStore.upsert_texts(ids, texts, metadatas)\<close>: what the
  ingestion code hands to the vector index.
\<close>

record upsert_request =
  ids :: "str list"
  texts :: "str list"
  metadatas :: "dict list"

text \<open>
  The store reads a call position by position (\<open>zip(ids, texts, metadatas, vectors)\<close>
  in \<open>PineconeVectorStore.upsert_texts\<close>): the stored chunks of a call, each with its
  id, its text and its metadata.
\<close>

definition stored_entries :: "upsert_request \<Rightarrow> (str \<times> str \<times> dict) list" where
  "stored_entries r = zip (ids r) (zip (texts r) (metadatas r))"

text \<open>
  What the ingestion code calls outside itself:
  \<^item> \<open>py_repr v\<close>: the text \<open>str(v)\<close> of a float, a list or a dict;
  \<^item> \<open>md5_hexdigest s\<close>: \<open>hashlib.md5(s.encode()).hexdigest()\<close>;
  \<^item> \<open>netloc_of u\<close>: \<open>urlparse(u).netloc\<close>, or the exception it raises;
  \<^item> \<open>clock a b\<close>: the value of \<open>int(time.time())\<close> at its \<open>b\<close>-th reading while
    item \<open>a\<close> is processed;
  \<^item> \<open>vector_store_ready\<close>: whether \<open>get_vector_store()\<close> returns a store rather than
    raising;
  \<^item> \<open>store_upsert r\<close>: whether the call \<open>r\<close> of the store's \<open>upsert_texts\<close> returns
    (\<open>True\<close>) or raises (it embeds the texts and writes to the index).
\<close>

record ingest_env =
  py_repr :: "json \<Rightarrow> str"
  md5_hexdigest :: "str \<Rightarrow> str"
  netloc_of :: "json \<Rightarrow> error + str"
  clock :: "nat \<Rightarrow> nat \<Rightarrow> int"
  vector_store_ready :: bool
  store_upsert :: "upsert_request \<Rightarrow> bool"

text \<open>\<open>str(v)\<close>, also what an f-string prints for \<open>{v}\<close>.\<close>

fun py_str :: "ingest_env \<Rightarrow> json \<Rightarrow> str" where
  "py_str env (JStr s) = s"
| "py_str env (JInt i) = str_of_int i"
| "py_str env (JBool b) = (if b then ascii ''True'' else ascii ''False'')"
| "py_str env JNull = ascii ''None''"
| "py_str env v = py_repr env v"

text \<open>
  The metadata preview of a chunk, in both pipelines:
  \<open>chunk[:500] + "..." if len(chunk) > 500 else chunk\<close>.
\<close>

definition text_preview :: "str \<Rightarrow> str" where
  "text_preview chunk =
     (if length chunk > 500 then slice_to chunk 500 @ ascii ''...'' else chunk)"

subsection \<open>\<open>upsert_texts\<close> of \<open>rag.py\<close>\<close>

text \<open>\<open>x or "unknown"\<close> for an optional string.\<close>

fun or_unknown :: "str option \<Rightarrow> str" where
  "or_unknown None = ascii ''unknown''"
| "or_unknown (Some s) = (if s \<noteq> [] then s else ascii ''unknown'')"

text \<open>
  The chunks \<open>upsert_texts\<close> stores: the text itself up to 50000 bytes, the chunks of
  \<open>_chunk_text(text, chunk_size=40000)\<close> above.
\<close>

definition upsert_chunks :: "str \<Rightarrow> error + str list" where
  "upsert_chunks t =
     (if list_ex is_surrogate t then Inl UnicodeEncodeError
      else if utf8_len t > 50000 then chunk_text t 40000
      else Inr [t])"

text \<open>The id \<open>f"doc_{chunk_hash}_{int(time.time())}_{i}"\<close> of chunk \<open>i\<close>.\<close>

definition doc_vector_id :: "ingest_env \<Rightarrow> nat \<Rightarrow> str \<Rightarrow> str" where
  "doc_vector_id env i chunk =
     ascii ''doc_'' @ take 8 (md5_hexdigest env chunk) @ ascii ''_''
       @ str_of_int (clock env i 0) @ ascii ''_'' @ str_of_nat i"

definition doc_metadata ::
  "ingest_env \<Rightarrow> str option \<Rightarrow> str option \<Rightarrow> nat \<Rightarrow> nat \<Rightarrow> str \<Rightarrow> dict" where
  "doc_metadata env filename file_type i n_chunks chunk =
     [(ascii ''filename'', JStr (or_unknown filename)),
      (ascii ''file_type'', JStr (or_unknown file_type)),
      (ascii ''text'', JStr (text_preview chunk)),
      (ascii ''created_at'', JInt (clock env i 1)),
      (ascii ''chunk_index'', JInt (int i)),
      (ascii ''total_chunks'', JInt (int n_chunks))]"

definition doc_request ::
  "ingest_env \<Rightarrow> str option \<Rightarrow> str option \<Rightarrow> nat \<Rightarrow> nat \<Rightarrow> str \<Rightarrow> upsert_request" where
  "doc_request env filename file_type n_chunks i chunk =
     \<lparr>ids = [doc_vector_id env i chunk], texts = [chunk],
      metadatas = [doc_metadata env filename file_type i n_chunks chunk]\<rparr>"

text \<open>
  \<open>upsert_texts(text, filename, file_type)\<close>: the result is the returned flag together
  with the calls made to the store, in order. A chunk whose call raises is skipped; the
  flag tells whether some call returned.
\<close>

definition upsert_texts ::
  "ingest_env \<Rightarrow> str \<Rightarrow> str option \<Rightarrow> str option \<Rightarrow> bool \<times> upsert_request list" where
  "upsert_texts env t filename file_type =
     (if t = [] \<or> strip t = [] then (False, [])
      else if \<not> vector_store_ready env then (False, [])
      else case upsert_chunks t of
        Inl e \<Rightarrow> (False, [])
      | Inr chunks \<Rightarrow>
          (let requests = map (\<lambda>(i, chunk). doc_request env filename file_type (length chunks) i chunk)
                            (enumerate 0 chunks)
           in (list_ex (store_upsert env) requests, requests)))"

subsection \<open>\<open>JSONLProcessor\<close>\<close>

text \<open>
  \<open>_extract_from_dict\<close>: the non-blank string members as \<open>key: value\<close>, nested
  dictionaries flattened, joined by \<open>" | "\<close>. \<open>nested_parts\<close> is its list \<open>text_parts\<close>.
\<close>

fun nested_parts :: "(str \<times> json) list \<Rightarrow> str list" where
  "nested_parts [] = []"
| "nested_parts ((key, JStr s) # rest) =
     (if strip s \<noteq> [] then [key @ ascii '': '' @ s] else []) @ nested_parts rest"
| "nested_parts ((key, JObj obj) # rest) =
     (if str_join (ascii '' | '') (nested_parts obj) \<noteq> []
      then [str_join (ascii '' | '') (nested_parts obj)] else []) @ nested_parts rest"
| "nested_parts ((key, v) # rest) = nested_parts rest"

definition extract_from_dict :: "(str \<times> json) list \<Rightarrow> str" where
  "extract_from_dict obj = str_join (ascii '' | '') (nested_parts obj)"

text \<open>The second loop of \<open>extract_text_content\<close>, over the members of the object.\<close>

fun top_parts :: "(str \<times> json) list \<Rightarrow> str list" where
  "top_parts [] = []"
| "top_parts ((key, JStr s) # rest) =
     (if strip s \<noteq> [] then [key @ ascii '': '' @ s] else []) @ top_parts rest"
| "top_parts ((key, JObj obj) # rest) =
     (if extract_from_dict obj \<noteq> []
      then [key @ ascii '': '' @ extract_from_dict obj] else []) @ top_parts rest"
| "top_parts ((key, v) # rest) = top_parts rest"

definition text_fields :: "str list" where
  "text_fields = [ascii ''text'', ascii ''content'', ascii ''description'', ascii ''body'',
                  ascii ''summary'', ascii ''title'']"

text \<open>
  The first loop: the first field of \<open>text_fields\<close> that is present with a true value.
\<close>

fun first_text_field :: "dict \<Rightarrow> str list \<Rightarrow> json option" where
  "first_text_field d [] = None"
| "first_text_field d (field # others) =
     (case map_of d field of
        Some v \<Rightarrow> if truthy v then Some v else first_text_field d others
      | None \<Rightarrow> first_text_field d others)"

text \<open>
  \<open>extract_text_content(json_obj)\<close>. A line of a JSONL file may hold any JSON value; for
  one that is not an object either \<open>field in json_obj\<close>, \<open>json_obj[field]\<close> or
  \<open>json_obj.items()\<close> raises.
\<close>

fun extract_text_content :: "ingest_env \<Rightarrow> json \<Rightarrow> error + str" where
  "extract_text_content env (JObj d) =
     (case first_text_field d text_fields of
        Some v \<Rightarrow> Inr (strip (py_str env v))
      | None \<Rightarrow> Inr (str_join (ascii '' | '') (top_parts d)))"
| "extract_text_content env (JStr s) =
     (if list_ex (\<lambda>field. list_ex (\<lambda>i. prefix field (drop i s)) [0..<Suc (length s)])
           text_fields
      then Inl TypeError else Inl AttributeError)"
| "extract_text_content env (JArr xs) =
     (if list_ex (\<lambda>field. JStr field \<in> set xs) text_fields
      then Inl TypeError else Inl AttributeError)"
| "extract_text_content env v = Inl TypeError"

text \<open>\<open>json_obj.get(key) or ""\<close>.\<close>

definition get_or_empty :: "dict \<Rightarrow> str \<Rightarrow> json" where
  "get_or_empty d key =
     (case map_of d key of Some v \<Rightarrow> if truthy v then v else JStr [] | None \<Rightarrow> JStr [])"

text \<open>
  The loop over \<open>json_obj["metadata"].items()\<close>: a \<open>None\<close> is skipped, a value of a basic
  type is copied, any other value is stored as its text.
\<close>

fun add_extra_metadata :: "ingest_env \<Rightarrow> dict \<Rightarrow> (str \<times> json) list \<Rightarrow> dict" where
  "add_extra_metadata env metadata [] = metadata"
| "add_extra_metadata env metadata ((key, v) # rest) =
     add_extra_metadata env
       (if v = JNull then metadata
        else if is_basic v then dict_set key v metadata
        else dict_set key (JStr (py_str env v)) metadata)
       rest"

text \<open>The block that adds \<open>site\<close>; an exception of \<open>urlparse\<close> is swallowed.\<close>

definition add_site :: "ingest_env \<Rightarrow> dict \<Rightarrow> dict \<Rightarrow> dict" where
  "add_site env d metadata =
     (case map_of d (ascii ''url'') of
        None \<Rightarrow> metadata
      | Some u \<Rightarrow>
          if truthy u then
            (case netloc_of env u of
               Inl e \<Rightarrow> metadata
             | Inr netloc \<Rightarrow>
                 if netloc \<noteq> [] then dict_set (ascii ''site'') (JStr netloc) metadata
                 else metadata)
          else metadata)"

text \<open>
  \<open>create_metadata(json_obj, filename, chunk_index)\<close> for chunk \<open>chunk_index\<close> of the
  object at position \<open>pos\<close> of the file.
\<close>

definition create_metadata :: "ingest_env \<Rightarrow> dict \<Rightarrow> str \<Rightarrow> nat \<Rightarrow> nat \<Rightarrow> dict" where
  "create_metadata env d filename pos chunk_index =
     (let metadata =
            [(ascii ''source_type'', JStr (ascii ''jsonl'')),
             (ascii ''filename'', JStr (if filename \<noteq> [] then filename else ascii ''unknown'')),
             (ascii ''chunk_index'', JInt (int chunk_index)),
             (ascii ''created_at'', JInt (clock env pos chunk_index)),
             (ascii ''id'', get_or_empty d (ascii ''id'')),
             (ascii ''url'', get_or_empty d (ascii ''url'')),
             (ascii ''title'', get_or_empty d (ascii ''title'')),
             (ascii ''section'', get_or_empty d (ascii ''section''))];
          metadata =
            (case map_of d (ascii ''metadata'') of
               Some (JObj extra) \<Rightarrow> add_extra_metadata env metadata extra
             | _ \<Rightarrow> metadata);
          metadata = add_site env d metadata
      in filter (\<lambda>(key, v). v \<noteq> JNull) metadata)"

text \<open>
  The keys the pipeline itself writes into the metadata of a chunk, and the members of
  the object's own \<open>metadata\<close> dictionary (none when the entry is absent or is not a
  dictionary).
\<close>

definition fixed_keys :: "str list" where
  "fixed_keys = [ascii ''source_type'', ascii ''filename'', ascii ''chunk_index'',
                 ascii ''created_at'', ascii ''id'', ascii ''url'', ascii ''title'',
                 ascii ''section'', ascii ''site'', ascii ''text'', ascii ''total_chunks'']"

definition extra_metadata :: "dict \<Rightarrow> (str \<times> json) list" where
  "extra_metadata d =
     (case map_of d (ascii ''metadata'') of Some (JObj extra) \<Rightarrow> extra | _ \<Rightarrow> [])"

text \<open>
  The last pass over the metadata in \<open>process_jsonl_batch\<close>: a \<open>None\<close> is deleted, a
  value that is not of a basic type is replaced by its text.
\<close>

fun ensure_valid :: "ingest_env \<Rightarrow> dict \<Rightarrow> dict" where
  "ensure_valid env [] = []"
| "ensure_valid env ((key, v) # rest) =
     (if v = JNull then ensure_valid env rest
      else if is_basic v then (key, v) # ensure_valid env rest
      else (key, JStr (py_str env v)) # ensure_valid env rest)"

text \<open>
  The id \<open>f"{obj_id}_chunk_{chunk_index}_{chunk_hash}"\<close> with
  \<open>obj_id = json_obj.get("id", f"obj_{batch_start + obj_index}")\<close>.
\<close>

definition jsonl_vector_id :: "ingest_env \<Rightarrow> dict \<Rightarrow> nat \<Rightarrow> nat \<Rightarrow> str \<Rightarrow> str" where
  "jsonl_vector_id env d pos chunk_index chunk =
     (case map_of d (ascii ''id'') of
        Some v \<Rightarrow> py_str env v
      | None \<Rightarrow> ascii ''obj_'' @ str_of_nat pos)
     @ ascii ''_chunk_'' @ str_of_nat chunk_index @ ascii ''_''
     @ take 8 (md5_hexdigest env chunk)"

definition jsonl_metadata ::
  "ingest_env \<Rightarrow> dict \<Rightarrow> str \<Rightarrow> nat \<Rightarrow> nat \<Rightarrow> nat \<Rightarrow> str \<Rightarrow> dict" where
  "jsonl_metadata env d filename pos n_chunks chunk_index chunk =
     ensure_valid env
       (dict_set (ascii ''total_chunks'') (JInt (int n_chunks))
          (dict_set (ascii ''text'') (JStr (text_preview chunk))
             (create_metadata env d filename pos chunk_index)))"

text \<open>
  The body of the loop over the objects of a batch, for the object at position \<open>pos\<close>
  of the file: the vectors \<open>(id, text, metadata)\<close> it adds to the batch, or the reason why
  it is counted as failed (an exception, or \<open>NoTextContent\<close> when the extracted text is
  blank). Nothing is added to the batch before the last statement that can raise.
\<close>

datatype failure = Raised error | NoTextContent

fun object_vectors ::
  "ingest_env \<Rightarrow> str \<Rightarrow> nat \<Rightarrow> json \<Rightarrow> failure + (str \<times> str \<times> dict) list" where
  "object_vectors env filename pos json_obj =
     (case extract_text_content env json_obj of
        Inl e \<Rightarrow> Inl (Raised e)
      | Inr text_content \<Rightarrow>
          if strip text_content = [] then Inl NoTextContent
          else case chunk_large_text text_content 40000 of
            Inl e \<Rightarrow> Inl (Raised e)
          | Inr text_chunks \<Rightarrow>
              (case json_obj of
                 JObj d \<Rightarrow>
                   Inr (map (\<lambda>(chunk_index, chunk).
                               (jsonl_vector_id env d pos chunk_index chunk,
                                chunk,
                                jsonl_metadata env d filename pos (length text_chunks)
                                  chunk_index chunk))
                          (enumerate 0 text_chunks))
               | _ \<Rightarrow> Inl (Raised AttributeError)))"

text \<open>The counters \<open>process_jsonl_batch\<close> returns, and the calls it made to the store.\<close>

record batch_stats =
  total_objects :: nat
  successful_stores :: nat
  failed_stores :: nat
  total_chunks :: nat
  requests :: "upsert_request list"

text \<open>
  One batch: the objects at positions \<open>batch_start, batch_start + 1, \<dots>\<close> of the file.
  \<open>batch_outcomes\<close> runs the loop body on each; \<open>batch_vectors\<close> is what the objects
  that did not fail have added to \<open>batch_ids\<close>, \<open>batch_texts\<close> and \<open>batch_metadatas\<close>,
  and \<open>batch_request\<close> the one call of the store made for the whole batch, unless the
  batch holds no vector.
\<close>

definition batch_outcomes ::
  "ingest_env \<Rightarrow> str \<Rightarrow> nat \<Rightarrow> json list \<Rightarrow> (failure + (str \<times> str \<times> dict) list) list" where
  "batch_outcomes env filename batch_start batch =
     map (\<lambda>(pos, json_obj). object_vectors env filename pos json_obj)
       (enumerate batch_start batch)"

definition batch_vectors ::
  "(failure + (str \<times> str \<times> dict) list) list \<Rightarrow> (str \<times> str \<times> dict) list" where
  "batch_vectors outcomes = concat (map (case_sum (\<lambda>f. []) (\<lambda>vs. vs)) outcomes)"

definition batch_failed :: "(failure + (str \<times> str \<times> dict) list) list \<Rightarrow> nat" where
  "batch_failed outcomes = length (filter (case_sum (\<lambda>f. True) (\<lambda>vs. False)) outcomes)"

definition batch_request :: "(str \<times> str \<times> dict) list \<Rightarrow> upsert_request" where
  "batch_request vectors =
     \<lparr>ids = map (\<lambda>(vector_id, chunk, metadata). vector_id) vectors,
      texts = map (\<lambda>(vector_id, chunk, metadata). chunk) vectors,
      metadatas = map (\<lambda>(vector_id, chunk, metadata). metadata) vectors\<rparr>"

definition process_one_batch ::
  "ingest_env \<Rightarrow> str \<Rightarrow> nat \<Rightarrow> json list \<Rightarrow> batch_stats \<Rightarrow> batch_stats" where
  "process_one_batch env filename batch_start batch stats =
     (let outcomes = batch_outcomes env filename batch_start batch;
          vectors = batch_vectors outcomes;
          stats = stats\<lparr>failed_stores := failed_stores stats + batch_failed outcomes,
                        total_chunks := total_chunks stats + length vectors\<rparr>
      in if vectors = [] then stats
         else if store_upsert env (batch_request vectors)
         then stats\<lparr>successful_stores := successful_stores stats + length vectors,
                     requests := requests stats @ [batch_request vectors]\<rparr>
         else stats\<lparr>failed_stores := failed_stores stats + length vectors,
                     requests := requests stats @ [batch_request vectors]\<rparr>)"

text \<open>The loop \<open>for batch_start in range(0, total_objects, batch_size)\<close>.\<close>

function process_batches ::
  "ingest_env \<Rightarrow> str \<Rightarrow> nat \<Rightarrow> nat \<Rightarrow> json list \<Rightarrow> batch_stats \<Rightarrow> batch_stats" where
  "process_batches env filename batch_size batch_start objs stats =
     (if batch_size = 0 \<or> objs = [] then stats
      else process_batches env filename batch_size (batch_start + batch_size)
             (drop batch_size objs)
             (process_one_batch env filename batch_start (take batch_size objs) stats))"
  by pat_completeness auto
termination
  by (relation "measure (\<lambda>(env, filename, batch_size, batch_start, objs, stats). length objs)")
     auto

text \<open>
  \<open>process_jsonl_batch(json_objects, filename)\<close> with its batch size 50. (The
  \<open>success_rate\<close> entry of the result, a float, is left out.)
\<close>

definition process_jsonl_batch :: "ingest_env \<Rightarrow> json list \<Rightarrow> str \<Rightarrow> batch_stats" where
  "process_jsonl_batch env json_objects filename =
     process_batches env filename 50 0 json_objects
       \<lparr>total_objects = length json_objects, successful_stores = 0, failed_stores = 0,
        total_chunks = 0, requests = []\<rparr>"

section \<open>Text generation (\<open>app/llm.py\<close>) and retrieval (\<open>app/chatbot/rag.py\<close>)\<close>

text \<open>
  The prompt handed to the language model: the fixed template of an agent, filled with
  the query (and, for the retrieval agent, with the context passages joined by blank
  lines).
\<close>

datatype prompt =
    IntentPrompt str
  | RagPrompt str str
  | CustomerPrompt str
  | AgencyPrompt str
  | OtherPrompt str

text \<open>An embedding: a list of floats, each kept as a literal.\<close>

type_synonym vector = "str list"

text \<open>
  A match of the vector index: its id and its metadata (\<open>None\<close> when the index returns
  none). The score is read by the code but never used.
\<close>

record match =
  match_id :: str
  match_metadata :: "dict option"

text \<open>
  What the chat code calls outside itself:
  \<^item> \<open>generate_content p\<close>: the \<open>text\<close> of the model's answer to \<open>p\<close> (possibly \<open>None\<close>),
    or \<open>Inl m\<close> when the call raises an exception whose text is \<open>m\<close>;
  \<^item> \<open>stream_content p\<close>: the \<open>text\<close> of the chunks a streamed answer delivers, and the
    text of the exception that ends the stream, if one does;
  \<^item> \<open>lower\<close>: \<open>str.lower\<close>;
  \<^item> \<open>predict q\<close>: the class index the trained classifier gives the (cleaned) query,
    or the exception raised while loading or applying it;
  \<^item> \<open>get_vector_store\<close>: the exception \<open>get_vector_store()\<close> raises, if any;
  \<^item> \<open>embed_text q\<close>: the embedding of the query (of \<open>app/chatbot/embeddings.py\<close>);
  \<^item> \<open>index_query v\<close>: the answer of the index to \<open>query(vector=v, top_k=5)\<close>: the
    list under \<open>matches\<close> (\<open>None\<close> when the key is absent), or an exception;
  \<^item> \<open>error_text e\<close>: \<open>str(e)\<close>.
\<close>

record chat_env =
  generate_content :: "prompt \<Rightarrow> str + str option"
  stream_content :: "prompt \<Rightarrow> str option list \<times> str option"
  lower :: "str \<Rightarrow> str"
  predict :: "str \<Rightarrow> error + int"
  get_vector_store :: "error option"
  embed_text :: "str \<Rightarrow> error + vector"
  index_query :: "vector \<Rightarrow> error + match list option"
  error_text :: "error \<Rightarrow> str"

text \<open>
  \<open>get_google_response(prompt)\<close>: it never raises; an exception becomes the text of the
  answer.
\<close>

definition get_google_response :: "chat_env \<Rightarrow> prompt \<Rightarrow> str" where
  "get_google_response env p =
     (case generate_content env p of
        Inl m \<Rightarrow> ascii ''Error while generating response: '' @ m
      | Inr None \<Rightarrow> ascii ''No response generated.''
      | Inr (Some t) \<Rightarrow> if t \<noteq> [] then strip t else ascii ''No response generated.'')"

text \<open>
  \<open>get_google_response_stream(prompt)\<close>: the non-empty chunk texts, then the error text
  as a last chunk when the stream breaks.
\<close>

fun truthy_texts :: "str option list \<Rightarrow> str list" where
  "truthy_texts [] = []"
| "truthy_texts (None # ts) = truthy_texts ts"
| "truthy_texts (Some t # ts) = (if t \<noteq> [] then t # truthy_texts ts else truthy_texts ts)"

definition get_google_response_stream :: "chat_env \<Rightarrow> prompt \<Rightarrow> str list" where
  "get_google_response_stream env p =
     (case stream_content env p of
        (ts, None) \<Rightarrow> truthy_texts ts
      | (ts, Some m) \<Rightarrow> truthy_texts ts @ [ascii ''Error while generating response: '' @ m])"

text \<open>
  \<open>PineconeVectorStore.query_by_text\<close>: the query is embedded and the vector is handed
  to the index as it is; there is no test for an empty vector.
\<close>

definition query_by_text :: "chat_env \<Rightarrow> str \<Rightarrow> error + match list option" where
  "query_by_text env q =
     (case embed_text env q of Inl e \<Rightarrow> Inl e | Inr v \<Rightarrow> index_query env v)"

text \<open>
  The loop over \<open>results.get('matches', [])\<close> that collects \<open>context_texts\<close>:
  \<open>match['metadata']['text']\<close> of every match whose metadata has the key \<open>text\<close>.
\<close>

fun collect_context :: "match list \<Rightarrow> error + json list" where
  "collect_context [] = Inr []"
| "collect_context (m # ms) =
     (case match_metadata m of
        None \<Rightarrow> Inl TypeError
      | Some md \<Rightarrow>
          (case collect_context ms of
             Inl e \<Rightarrow> Inl e
           | Inr ctx \<Rightarrow>
               (case map_of md (ascii ''text'') of
                  Some t \<Rightarrow> Inr (t # ctx)
                | None \<Rightarrow> Inr ctx)))"

definition retrieve_context :: "chat_env \<Rightarrow> str \<Rightarrow> error + json list" where
  "retrieve_context env q =
     (case get_vector_store env of
        Some e \<Rightarrow> Inl e
      | None \<Rightarrow>
          (case query_by_text env q of
             Inl e \<Rightarrow> Inl e
           | Inr None \<Rightarrow> Inr []
           | Inr (Some ms) \<Rightarrow> collect_context ms))"

section \<open>Agents (\<open>app/chatbot/agents.py\<close>)\<close>

text \<open>The \<open>str\<close> under a \<open>JStr\<close>; \<open>"\n\n".join\<close> raises \<open>TypeError\<close> on anything else.\<close>

fun join_context :: "json list \<Rightarrow> error + str" where
  "join_context [] = Inr []"
| "join_context [JStr s] = Inr s"
| "join_context (JStr s # t # ts) =
     (case join_context (t # ts) of
        Inl e \<Rightarrow> Inl e
      | Inr rest \<Rightarrow> Inr (s @ ascii ''\<newline>\<newline>'' @ rest))"
| "join_context (v # ts) = Inl TypeError"

text \<open>
  \<open>rag_agent(query, context_texts)\<close>: any exception is raised again as
  \<open>Exception("Failed to generate LLM response: ...")\<close>.
\<close>

definition rag_agent :: "chat_env \<Rightarrow> str \<Rightarrow> json list \<Rightarrow> error + str" where
  "rag_agent env query context_texts =
     (case join_context context_texts of
        Inl e \<Rightarrow> Inl (PyException (ascii ''Failed to generate LLM response: '' @ error_text env e))
      | Inr context \<Rightarrow> Inr (get_google_response env (RagPrompt query context)))"

definition customer_agent :: "chat_env \<Rightarrow> str \<Rightarrow> str" where
  "customer_agent env query = get_google_response env (CustomerPrompt query)"

definition agency_agent :: "chat_env \<Rightarrow> str \<Rightarrow> str" where
  "agency_agent env query = get_google_response env (AgencyPrompt query)"

definition other_agent :: "chat_env \<Rightarrow> str \<Rightarrow> str" where
  "other_agent env query = get_google_response env (OtherPrompt query)"

text \<open>
  The streaming agents. \<open>rag_agent_stream\<close> yields one chunk with the error text when
  joining the context raises.
\<close>

definition rag_agent_stream :: "chat_env \<Rightarrow> str \<Rightarrow> json list \<Rightarrow> str list" where
  "rag_agent_stream env query context_texts =
     (case join_context context_texts of
        Inl e \<Rightarrow> [ascii ''Failed to generate LLM response: '' @ error_text env e]
      | Inr context \<Rightarrow> get_google_response_stream env (RagPrompt query context))"

definition customer_agent_stream :: "chat_env \<Rightarrow> str \<Rightarrow> str list" where
  "customer_agent_stream env query = get_google_response_stream env (CustomerPrompt query)"

definition agency_agent_stream :: "chat_env \<Rightarrow> str \<Rightarrow> str list" where
  "agency_agent_stream env query = get_google_response_stream env (AgencyPrompt query)"

definition other_agent_stream :: "chat_env \<Rightarrow> str \<Rightarrow> str list" where
  "other_agent_stream env query = get_google_response_stream env (OtherPrompt query)"

section \<open>Response strategies (\<open>app/chatbot/utils.py\<close>, \<open>app/chatbot/streaming_utils.py\<close>)\<close>

text \<open>The support menu attached to every answer: a label and its options.\<close>

record support_message =
  label :: str
  options :: "str list"

definition menu_more :: support_message where
  "menu_more = \<lparr>label = ascii ''would you like to know more about?'',
                 options = [ascii ''Rajasthan Patrika'', ascii ''Refund Policies'', ascii ''Ad Booking'']\<rparr>"

definition menu_ad_booking :: support_message where
  "menu_ad_booking =
     \<lparr>label = ascii ''For ad booking, please specify the category you are interested in:'',
      options = [ascii ''Customer'', ascii ''Agency'']\<rparr>"

definition menu_customer :: support_message where
  "menu_customer =
     \<lparr>label = ascii ''Would you like to know the ad booking flow for any other cat''
              @ ascii ''egory like Agency, or want to know about Rajasthan Patrika o''
              @ ascii ''r refund policy?'',
      options = [ascii ''Agency'', ascii ''Rajasthan Patrika'', ascii ''Refund Policy'']\<rparr>"

definition menu_agency :: support_message where
  "menu_agency =
     \<lparr>label = ascii ''Would you like to know the ad booking flow for any other cat''
              @ ascii ''egory like Customer, or want to know about Rajasthan Patrika''
              @ ascii '' or refund policy?'',
      options = [ascii ''Customer'', ascii ''Rajasthan Patrika'', ascii ''Refund Policy'']\<rparr>"

definition menu_other :: support_message where
  "menu_other =
     \<lparr>label = ascii ''Would you like to know the ad booking flow for any other cat''
              @ ascii ''egory like Customer, Agency, or want to know about Rajasthan''
              @ ascii '' Patrika or refund policy?'',
      options = [ascii ''Customer'', ascii ''Agency'', ascii ''Rajasthan Patrika'', ascii ''Refund Policy'']\<rparr>"

text \<open>The predefined answers.\<close>

definition refund_text :: str where
  "refund_text =
     ascii ''To process a refund, please provide your booking details or ''
     @ ascii ''contact our support team at support@rajasthanpatrika.com. Re''
     @ ascii ''funds are typically processed within 5-7 business days after''
     @ ascii '' verification.''"

definition ad_booking_text :: str where
  "ad_booking_text =
     ascii ''To help you with ad booking, could you please let me know wh''
     @ ascii ''ich category you want to book an ad for? (Customer, Agency)''"

definition rajasthan_patrika_text :: str where
  "rajasthan_patrika_text =
     ascii ''Rajasthan Patrika has a readership of over 2.59 crore, posit''
     @ ascii ''ioning it 26th among the top 50 paid newspapers worldwide (W''
     @ ascii ''AN-IFRA). It is the 5th largest newspaper in India, accordin''
     @ ascii ''g to AMIC UNESCO. Rajasthan Patrika is the only Hindi daily ''
     @ ascii ''with a significant presence in southern India.''
     @ [10, 10]
     @ ascii ''It is part of the Patrika Group, which reaches 50% of India''
     @ [39]
     @ ascii ''s Hindi-speaking population and has extended its reach acros''
     @ ascii ''s 8 states with 38 editions. In MPCG, the publication is rel''
     @ ascii ''eased as ''
     @ [34]
     @ ascii ''Patrika''
     @ [34]
     @ ascii ''.''
     @ [10, 10]
     @ ascii ''Rajasthan Patrika is known as the ''
     @ [34]
     @ ascii ''Newspaper with a Soul,''
     @ [34]
     @ ascii '' committed to comprehensive coverage of national events, loc''
     @ ascii ''al stories, and daily issues, addressing every facet of soci''
     @ ascii ''ety and community with unwavering dedication.''
     @ [10, 10]
     @ ascii ''Notable associations and events include:''
     @ [10]
     @ ascii ''*   Amitabh Bachchan and Prakash Jha in a Satyagraha Patrika''
     @ ascii '' TVC.''
     @ [10]
     @ ascii ''*   Deepika Padukone TVC.''
     @ [10]
     @ ascii ''*   Ranveer Singh (Catchnews TVC).''
     @ [10]
     @ ascii ''*   Priyanka Chopra.''
     @ [10]
     @ ascii ''*   Dr. APJ Abdul Kalam''
     @ [39]
     @ ascii ''s visit to the Rajasthan Patrika office.''
     @ [10]
     @ ascii ''*   Parineeti Chopra''
     @ [39]
     @ ascii ''s visit to Rajasthan Patrika.''
     @ [10]
     @ ascii ''*   Mac Rajasthan Patrika.''
     @ [10, 10]
     @ ascii ''Rajasthan Patrika initiates sharp and effective reactions th''
     @ ascii ''rough regular series of campaigns, taking up problems not no''
     @ ascii ''ticed by the administration or raised by others, leading to ''
     @ ascii ''responsive administrative action.''
     @ [10, 10]
     @ ascii ''Patrika.com, part of Patrika Digital, is one of India''
     @ [39]
     @ ascii ''s fastest-growing online news sites, building a loyal audien''
     @ ascii ''ce on the web and mobile. Patrika Digital boasts over 135 mi''
     @ ascii ''llion page views and engages more than 39.7 million unique v''
     @ ascii ''isitors from across the world on various platforms, creating''
     @ ascii '' cutting-edge advertising solutions for client visibility.''"

definition no_information_text :: str where
  "no_information_text =
     ascii ''I couldn''
     @ [39]
     @ ascii ''t find relevant information to answer your question.''"

text \<open>
  \<open>Chatbot.rag_response(query)\<close>: the answer of the retrieval agent when some context
  passage was found, and \<open>None\<close> otherwise. Every exception becomes an
  \<open>HTTPException\<close> with status 500.
\<close>

definition rag_response :: "chat_env \<Rightarrow> str \<Rightarrow> error + str option" where
  "rag_response env query =
     (case retrieve_context env query of
        Inl e \<Rightarrow> Inl (HTTPException 500 (ascii ''Query failed: '' @ error_text env e))
      | Inr context_texts \<Rightarrow>
          if context_texts \<noteq> [] then
            (case rag_agent env query context_texts of
               Inl e \<Rightarrow> Inl (HTTPException 500 (ascii ''Query failed: '' @ error_text env e))
             | Inr llm_response \<Rightarrow> Inr (Some llm_response))
          else Inr None)"

text \<open>
  \<open>Chatbot.ai_response(query, intent)\<close>: the response text (\<open>None\<close> when
  \<open>rag_response\<close> returns \<open>None\<close>) and the support menu.
\<close>

definition ai_response ::
  "chat_env \<Rightarrow> str \<Rightarrow> str \<Rightarrow> error + str option \<times> support_message" where
  "ai_response env query intent =
     (if intent = ascii ''refund'' then Inr (Some refund_text, menu_more)
      else if intent = ascii ''rp'' then
        (case rag_response env query of
           Inl e \<Rightarrow> Inl e
         | Inr response \<Rightarrow> Inr (response, menu_more))
      else if intent = ascii ''ad_booking'' then Inr (Some ad_booking_text, menu_ad_booking)
      else if intent = ascii ''customer'' then Inr (Some (customer_agent env query), menu_customer)
      else if intent = ascii ''agency'' then Inr (Some (agency_agent env query), menu_agency)
      else Inr (Some (other_agent env query), menu_other))"

section \<open>Streaming dispatcher (\<open>app/chatbot/streaming_utils.py\<close>)\<close>

text \<open>
  The frames written to the WebSocket:
  \<open>{"type": "stream", "chunk": c, "is_final": b}\<close>,
  \<open>{"type": "complete", "data": {"message": m, "supportMessage": s}}\<close> and
  \<open>{"type": "error", "message": m}\<close>.
\<close>

datatype ws_frame =
    Stream str bool
  | Complete str support_message
  | ErrorFrame str

text \<open>
  \<open>stream_text_response\<close>: the loop \<open>for i in range(0, len(text), chunk_size)\<close>,
  one frame per iteration carrying \<open>text[i:i + chunk_size]\<close> and the flag
  \<open>i + chunk_size >= len(text)\<close>. \<open>stream_from\<close> is the loop from offset \<open>i\<close> for a
  positive step; \<open>range\<close> raises \<open>ValueError\<close> for step zero and is empty for a
  negative step.
\<close>

function stream_from :: "str \<Rightarrow> nat \<Rightarrow> nat \<Rightarrow> ws_frame list" where
  "stream_from text chunk_size i =
     (if chunk_size = 0 \<or> length text \<le> i then []
      else Stream (take chunk_size (drop i text)) (length text \<le> i + chunk_size)
             # stream_from text chunk_size (i + chunk_size))"
  by pat_completeness auto
termination
  by (relation "measure (\<lambda>(text, chunk_size, i). length text - i)") auto

declare stream_from.simps [simp del]

definition stream_text_response :: "str \<Rightarrow> int \<Rightarrow> error + ws_frame list" where
  "stream_text_response text chunk_size =
     (if chunk_size = 0 then Inl ValueError
      else if chunk_size < 0 then Inr []
      else Inr (stream_from text (nat chunk_size) 0))"

text \<open>
  \<open>StreamingChatbot.stream_rag_response(query, websocket)\<close>: the frames it writes
  itself and what it returns or raises. Without context passages it returns a fixed
  sentence; on an exception it writes an error frame and raises
  \<open>Exception("RAG query failed: ...")\<close>.
\<close>

definition rag_failure :: "chat_env \<Rightarrow> error \<Rightarrow> ws_frame list \<times> (error + str)" where
  "rag_failure env e =
     ([ErrorFrame (ascii ''Error in RAG response: '' @ error_text env e)],
      Inl (PyException (ascii ''RAG query failed: '' @ error_text env e)))"

definition stream_rag_response :: "chat_env \<Rightarrow> str \<Rightarrow> ws_frame list \<times> (error + str)" where
  "stream_rag_response env query =
     (case retrieve_context env query of
        Inl e \<Rightarrow> rag_failure env e
      | Inr context_texts \<Rightarrow>
          if context_texts \<noteq> [] then
            (case rag_agent env query context_texts of
               Inl e \<Rightarrow> rag_failure env e
             | Inr llm_response \<Rightarrow> ([], Inr llm_response))
          else ([], Inr no_information_text))"

text \<open>\<open>StreamingChatbot.stream_ai_response(query, intent, websocket)\<close>.\<close>

definition stream_ai_response ::
  "chat_env \<Rightarrow> str \<Rightarrow> str \<Rightarrow> ws_frame list \<times> (error + str \<times> support_message)" where
  "stream_ai_response env query intent =
     (if intent = ascii ''refund'' then ([], Inr (refund_text, menu_more))
      else if intent = ascii ''rp'' then
        (case stream_rag_response env query of
           (frames, Inl e) \<Rightarrow> (frames, Inl e)
         | (frames, Inr response) \<Rightarrow> (frames, Inr (response, menu_more)))
      else if intent = ascii ''ad_booking'' then ([], Inr (ad_booking_text, menu_ad_booking))
      else if intent = ascii ''customer'' then ([], Inr (customer_agent env query, menu_customer))
      else if intent = ascii ''agency'' then ([], Inr (agency_agent env query, menu_agency))
      else ([], Inr (other_agent env query, menu_other)))"

section \<open>WebSocket endpoints (\<open>app/chatbot/views.py\<close>)\<close>

text \<open>
  \<open>Chatbot.intent_classification(query)\<close>: the class of the trained classifier, looked
  up in the table \<open>classes\<close>; an index outside the table raises \<open>KeyError\<close>.
\<close>

definition classes :: "int \<Rightarrow> str option" where
  "classes idx =
     (if idx = 0 then Some (ascii ''ad_booking'')
      else if idx = 1 then Some (ascii ''agency'')
      else if idx = 2 then Some (ascii ''customer'')
      else if idx = 3 then Some (ascii ''other'')
      else if idx = 4 then Some (ascii ''rp'')
      else if idx = 5 then Some (ascii ''refund'')
      else None)"

definition intent_classification :: "chat_env \<Rightarrow> str \<Rightarrow> error + str" where
  "intent_classification env query =
     (case predict env query of
        Inl e \<Rightarrow> Inl e
      | Inr pred_idx \<Rightarrow>
          (case classes pred_idx of None \<Rightarrow> Inl KeyError | Some intent \<Rightarrow> Inr intent))"

text \<open>
  The part of a turn that both WebSocket endpoints share, once the intent is known: the
  answer is computed, streamed in slices of 50 characters, and closed by the
  \<open>complete\<close> frame. An exception ends the turn with an error frame. The frames are those
  written to a client that stays connected.
\<close>

definition error_frame :: "chat_env \<Rightarrow> error \<Rightarrow> ws_frame" where
  "error_frame env e = ErrorFrame (ascii ''An error occurred: '' @ error_text env e)"

definition answer_turn :: "chat_env \<Rightarrow> str \<Rightarrow> str \<Rightarrow> ws_frame list" where
  "answer_turn env query intent =
     (case stream_ai_response env query intent of
        (frames, Inl e) \<Rightarrow> frames @ [error_frame env e]
      | (frames, Inr (response, support)) \<Rightarrow>
          (case stream_text_response response 50 of
             Inl e \<Rightarrow> frames @ [error_frame env e]
           | Inr stream_frames \<Rightarrow> frames @ stream_frames @ [Complete response support]))"

text \<open>
  One turn of \<open>/chat/ws\<close>, for the query taken from the client's message: three
  predefined queries are answered at once by a \<open>complete\<close> frame, any other query goes
  through the classifier.
\<close>

definition websocket_chat :: "chat_env \<Rightarrow> str \<Rightarrow> ws_frame list" where
  "websocket_chat env query =
     (if query = [] then [ErrorFrame (ascii ''No query provided'')]
      else if lower env query = ascii ''rajasthan patrika''
        then [Complete rajasthan_patrika_text menu_more]
      else if lower env query = ascii ''refund policies''
        then [Complete refund_text menu_more]
      else if lower env query = ascii ''ad booking''
        then [Complete ad_booking_text menu_ad_booking]
      else case intent_classification env query of
        Inl e \<Rightarrow> [error_frame env e]
      | Inr intent \<Rightarrow> answer_turn env query intent)"

text \<open>One turn of \<open>/chat/ws2\<close>: the intent is always \<open>rp\<close>.\<close>

definition websocket_chat2 :: "chat_env \<Rightarrow> str \<Rightarrow> ws_frame list" where
  "websocket_chat2 env query =
     (if query = [] then [ErrorFrame (ascii ''No query provided'')]
      else answer_turn env query (ascii ''rp''))"

text \<open>The \<open>chunk\<close> payloads of the \<open>stream\<close> frames of a turn, in order.\<close>

fun ws_chunks :: "ws_frame list \<Rightarrow> str list" where
  "ws_chunks [] = []"
| "ws_chunks (Stream c final # fs) = c # ws_chunks fs"
| "ws_chunks (f # fs) = ws_chunks fs"

section \<open>The JSON decoder (\<open>json.loads\<close>)\<close>














section \<open>Intent classification by the language model (\<open>app/chatbot/agents.py\<close>)\<close>













section \<open>Parsing an uploaded file (\<open>JSONLProcessor.parse_jsonl_file\<close>)\<close>







section \<open>Example inputs\<close>

text \<open>
  An environment on which the ingestion pipelines can be evaluated: the clock stands
  still at \<open>now\<close>, the store is there and accepts every call, no URL has a host, and
  \<open>md5_table\<close> knows the MD5 digests of the example texts \<open>a\<close>, \<open>hello\<close>,
  \<open>a. b. c.\<close> and 501 times \<open>a\<close> (no other text is hashed in the examples).
\<close>

definition md5_table :: "str \<Rightarrow> str" where
  "md5_table s =
     (if s = ascii ''a'' then ascii ''0cc175b9c0f1b6a831c399e269772661''
      else if s = ascii ''hello'' then ascii ''5d41402abc4b2a76b9719d911017c592''
      else if s = ascii ''a. b. c.'' then ascii ''845c0e4d0d3fdd96b4a4cd45a3b1cfe1''
      else if s = replicate 501 97 then ascii ''9b315a8da54c0d44cf4f76162cfea83c''
      else [])"

definition example_env :: "int \<Rightarrow> ingest_env" where
  "example_env now =
     \<lparr>py_repr = (\<lambda>v. ascii ''[]''), md5_hexdigest = md5_table,
      netloc_of = (\<lambda>u. Inr []), clock = (\<lambda>a b. now), vector_store_ready = True,
      store_upsert = (\<lambda>r. True)\<rparr>"

text \<open>
  The same pipeline on a later day, with a clock that moves and a store that refuses
  every call.
\<close>

definition later_env :: ingest_env where
  "later_env =
     (example_env 1700000000)
       \<lparr>clock := (\<lambda>a b. 1700086400 + int a), store_upsert := (\<lambda>r. False)\<rparr>"

text \<open>
  Two lines of a JSONL file: \<open>{"text": "hello", "id": null, "metadata": {"lang": null,
  "tags": []}}\<close> and \<open>{"title": "a"}\<close>.
\<close>

definition example_objects :: "json list" where
  "example_objects =
     [JObj [(ascii ''text'', JStr (ascii ''hello'')), (ascii ''id'', JNull),
            (ascii ''metadata'', JObj [(ascii ''lang'', JNull), (ascii ''tags'', JArr [])])],
      JObj [(ascii ''title'', JStr (ascii ''a''))]]"




section \<open>Notions used in the proofs\<close>

text \<open>Every metadata value of the calls \<open>rs\<close> is a string, a number or a boolean.\<close>

definition valid_requests :: "upsert_request list \<Rightarrow> bool" where
  "valid_requests rs =
     (\<forall>r \<in> set rs. \<forall>md \<in> set (metadatas r). \<forall>(k, v) \<in> set md. is_basic v)"

text \<open>What the loop body did for one object, reduced to the vector ids.\<close>

definition outcome_ids :: "failure + (str \<times> str \<times> dict) list \<Rightarrow> failure + str list" where
  "outcome_ids r = map_sum (\<lambda>f. f) (map fst) r"

text \<open>
  The entry \<open>x\<close> was built by the JSONL pipeline for a chunk of the text of an object of
  \<open>objs\<close>.
\<close>

definition jsonl_entry :: "ingest_env \<Rightarrow> str \<Rightarrow> json set \<Rightarrow> str \<times> str \<times> dict \<Rightarrow> bool" where
  "jsonl_entry env filename objs x =
     (\<exists>pos d n k chunk t cs. JObj d \<in> objs \<and>
        extract_text_content env (JObj d) = Inr t \<and>
        chunk_large_text t 40000 = Inr cs \<and> chunk \<in> set cs \<and>
        x = (jsonl_vector_id env d pos k chunk, chunk,
             jsonl_metadata env d filename pos n k chunk))"

definition entries_ok :: "ingest_env \<Rightarrow> str \<Rightarrow> json set \<Rightarrow> upsert_request list \<Rightarrow> bool" where
  "entries_ok env filename S rs =
     (\<forall>r \<in> set rs. \<forall>x \<in> set (stored_entries r). jsonl_entry env filename S x)"

text \<open>The three lists of every call have the same length.\<close>

definition same_lengths :: "upsert_request list \<Rightarrow> bool" where
  "same_lengths rs =
     (\<forall>r \<in> set rs. length (texts r) = length (ids r) \<and> length (metadatas r) = length (ids r))"


text \<open>The dictionary literal \<open>create_metadata\<close> starts from.\<close>

definition base_metadata :: "ingest_env \<Rightarrow> dict \<Rightarrow> str \<Rightarrow> nat \<Rightarrow> nat \<Rightarrow> dict" where
  "base_metadata env d filename pos chunk_index =
     [(ascii ''source_type'', JStr (ascii ''jsonl'')),
      (ascii ''filename'', JStr (if filename \<noteq> [] then filename else ascii ''unknown'')),
      (ascii ''chunk_index'', JInt (int chunk_index)),
      (ascii ''created_at'', JInt (clock env pos chunk_index)),
      (ascii ''id'', get_or_empty d (ascii ''id'')),
      (ascii ''url'', get_or_empty d (ascii ''url'')),
      (ascii ''title'', get_or_empty d (ascii ''title'')),
      (ascii ''section'', get_or_empty d (ascii ''section''))]"



section \<open>Properties of the streaming loop\<close>

lemma stream_from_offsets:
  "0 < cs \<Longrightarrow> stream_from text cs i =
     map (\<lambda>k. Stream (take cs (drop (i + cs * k) text)) (length text \<le> i + cs * k + cs))
       [0..<(length text - i + cs - 1) div cs]"
proof (induction "text" cs i rule: stream_from.induct)
  case (1 tx cs i)
  show ?case
  proof (cases "length tx \<le> i")
    case True
    then have "(length tx - i + cs - 1) div cs = 0" using "1.prems" by simp
    then show ?thesis using True by (simp add: stream_from.simps)
  next
    case False
    define n where "n = (length tx - (i + cs) + cs - 1) div cs"
    have step: "(length tx - i + cs - 1) div cs = Suc n"
    proof -
      have pos: "0 < length tx - i" using False by simp
      define m where "m = length tx - i - 1"
      have e: "length tx - i + cs - 1 = m + cs" using pos by (simp add: m_def)
      have "(m + cs) div cs = Suc (m div cs)"
        using div_add_self2[of cs m] "1.prems" by simp
      then have l: "(length tx - i + cs - 1) div cs = Suc ((length tx - i - 1) div cs)"
        unfolding e m_def .
      have "n = (length tx - i - 1) div cs"
      proof (cases "cs \<le> length tx - i")
        case True
        then have "length tx - (i + cs) + cs - 1 = length tx - i - 1" by simp
        then show ?thesis by (simp add: n_def)
      next
        case False
        then have "length tx - (i + cs) + cs - 1 = cs - 1" by simp
        then show ?thesis using False "1.prems" by (simp add: n_def)
      qed
      with l show ?thesis by simp
    qed
    have ih: "stream_from tx cs (i + cs) =
       map (\<lambda>k. Stream (take cs (drop (i + cs + cs * k) tx))
                   (length tx \<le> i + cs + cs * k + cs)) [0..<n]"
      using "1.IH" False "1.prems" by (simp add: n_def)
    have "stream_from tx cs i =
        Stream (take cs (drop i tx)) (length tx \<le> i + cs) # stream_from tx cs (i + cs)"
      using False "1.prems" by (subst stream_from.simps) simp
    also have "\<dots> = map (\<lambda>k. Stream (take cs (drop (i + cs * k) tx))
                              (length tx \<le> i + cs * k + cs)) [0..<Suc n]"
      unfolding ih
      by (simp add: upt_rec[of 0 "Suc n"] map_Suc_upt[symmetric] del: upt_Suc add: ac_simps)
    finally show ?thesis by (simp only: step)
  qed
qed

text \<open>
  Claim C10. With the chunk size 50 that every caller uses, \<open>stream_text_response\<close>
  emits exactly the consecutive 50-character slices of the text, in order, one frame per
  slice: frame \<open>k\<close> carries \<open>text[50k : 50k + 50]\<close>, and its \<open>is_final\<close> flag is true
  exactly when \<open>k\<close> is the index of the last frame. The number of frames is
  \<open>\<lceil>len(text) / 50\<rceil>\<close>, so the empty text emits no frame at all.
\<close>

theorem stream_text_response_slices:
  "stream_text_response text 50 =
     Inr (map (\<lambda>k. Stream (take 50 (drop (50 * k) text)) (Suc k = (length text + 49) div 50))
            [0..<(length text + 49) div 50])
   \<and> stream_text_response [] 50 = Inr []"
proof -
  have "stream_from text 50 0 =
      map (\<lambda>k. Stream (take 50 (drop (50 * k) text)) (length text \<le> 50 * k + 50))
        [0..<(length text + 49) div 50]"
    using stream_from_offsets[of 50 "text" 0] by (simp add: add.commute)
  also have "\<dots> = map (\<lambda>k. Stream (take 50 (drop (50 * k) text))
                             (Suc k = (length text + 49) div 50))
                     [0..<(length text + 49) div 50]"
  proof (rule map_cong[OF refl])
    fix k assume "k \<in> set [0..<(length text + 49) div 50]"
    then have "k < (length text + 49) div 50" by simp
    then have "(length text \<le> 50 * k + 50) = (Suc k = (length text + 49) div 50)" by arith
    then show "Stream (take 50 (drop (50 * k) text)) (length text \<le> 50 * k + 50) =
               Stream (take 50 (drop (50 * k) text)) (Suc k = (length text + 49) div 50)"
      by simp
  qed
  finally have a: "stream_from text 50 0 =
      map (\<lambda>k. Stream (take 50 (drop (50 * k) text)) (Suc k = (length text + 49) div 50))
        [0..<(length text + 49) div 50]" .
  have b: "stream_from [] 50 0 = []" by (simp add: stream_from.simps)
  show ?thesis using a b by (simp add: stream_text_response_def)
qed

section \<open>Properties of the chunkers\<close>

lemmas str_eval = ascii_def utf8_len_def utf8_width_def is_surrogate_def is_space_def
  strip_def slice_to_def str_split_def re_split_sentences_def

lemma split_from_no_sep:
  "sep \<noteq> [] \<Longrightarrow> hd sep \<notin> set s \<Longrightarrow> split_from sep acc s = [acc @ s]"
proof (induction s arbitrary: acc)
  case Nil
  then show ?case by simp
next
  case (Cons c cs)
  have "\<not> prefix sep (c # cs)"
    using Cons.prems by (cases sep) auto
  then show ?case using Cons by simp
qed

lemma re_split_from_no_space:
  "\<not> list_ex is_space s \<Longrightarrow> re_split_from acc s = [acc @ s]"
proof (induction s arbitrary: acc)
  case Nil
  then show ?case by simp
next
  case (Cons c cs)
  then have "\<not> is_space c" and "\<not> list_ex is_space cs" by simp_all
  then show ?case using Cons.IH[of "acc @ [c]"] by simp
qed

text \<open>
  A text that is too long and holds neither a line feed nor a full stop is one paragraph
  and one sentence: \<open>chunk_large_text\<close> returns the single chunk \<open>text[:max_chunk_size]\<close>,
  the first \<open>max_chunk_size\<close> characters.
\<close>

lemma chunk_large_text_single_sentence:
  assumes "\<not> list_ex is_surrogate t" and "m < int (utf8_len t)"
    and "10 \<notin> set t" and "46 \<notin> set t"
  shows "chunk_large_text t m = Inr [slice_to t m]"
proof -
  have p: "str_split t (ascii ''\<newline>\<newline>'') = [t]"
    using assms(3) split_from_no_sep[of "ascii ''\<newline>\<newline>''" t "[]"]
    by (simp add: str_split_def ascii_def)
  have s: "str_split t (ascii ''. '') = [t]"
    using assms(4) split_from_no_sep[of "ascii ''. ''" t "[]"]
    by (simp add: str_split_def ascii_def)
  show ?thesis
    using assms(1,2) by (simp add: chunk_large_text_def chunk_loop_def p s)
qed

text \<open>The same for \<open>_chunk_text\<close> and a text without whitespace.\<close>

lemma chunk_text_single_sentence:
  assumes "\<not> list_ex is_surrogate t" and "m < int (utf8_len t)"
    and "\<not> list_ex is_space t"
  shows "chunk_text t m = Inr [slice_to t m]"
proof -
  have "is_space 10" by (simp add: is_space_def)
  then have "10 \<notin> set t" using assms(3) by (auto simp: list_ex_iff)
  then have p: "str_split t (ascii ''\<newline>\<newline>'') = [t]"
    using split_from_no_sep[of "ascii ''\<newline>\<newline>''" t "[]"]
    by (simp add: str_split_def ascii_def)
  have s: "re_split_sentences t = [t]"
    using assms(3) by (simp add: re_split_sentences_def re_split_from_no_space)
  show ?thesis
    using assms(1,2) by (simp add: chunk_text_def chunk_loop_def p s)
qed

lemma utf8_len_replicate: "utf8_len (replicate n c) = n * utf8_width c"
  by (induction n) (simp_all add: utf8_len_def)

text \<open>
  Claim C1 says that every chunk has at most \<open>max_bytes\<close> UTF-8 bytes, a sentence that
  is itself too long being cut to exactly \<open>max_bytes\<close> bytes, whether it is ASCII or not.
  The chunkers are evaluated here at two inputs. The first is a single sentence of 40000
  times the code point \<open>0xE9\<close> (e with acute accent, two bytes each, 80000 bytes) with the
  chunk size 40000 of both callers: the forced split \<open>sentence[:40000]\<close> keeps 40000
  characters, so the one chunk returned is the whole sentence, of 80000 bytes. The second
  is the ASCII text \<open>aaaa\n\nbbbb\n\ncccc\<close> with the bound 8: the size test leaves the
  paragraph separator out, and the first chunk has 10 bytes.
\<close>

theorem chunk_exceeds_max_bytes:
  "chunk_large_text (replicate 40000 0xE9) 40000 = Inr [replicate 40000 0xE9]
   \<and> chunk_text (replicate 40000 0xE9) 40000 = Inr [replicate 40000 0xE9]
   \<and> utf8_len (replicate 40000 0xE9) = 80000
   \<and> chunk_large_text (ascii ''aaaa\<newline>\<newline>bbbb\<newline>\<newline>cccc'') 8
       = Inr [ascii ''aaaa\<newline>\<newline>bbbb'', ascii ''cccc'']
   \<and> utf8_len (ascii ''aaaa\<newline>\<newline>bbbb'') = 10"
proof -
  define t :: str where "t = replicate 40000 0xE9"
  have st: "set t = {0xE9}" by (simp add: t_def)
  have a: "\<not> list_ex is_surrogate t"
    by (simp add: list_ex_iff st is_surrogate_def)
  have b: "utf8_len t = 80000"
    by (simp add: t_def utf8_len_replicate utf8_width_def)
  have c: "\<not> list_ex is_space t"
    by (simp add: list_ex_iff st is_space_def)
  have d: "slice_to t 40000 = t"
    by (simp add: slice_to_def t_def)
  have e: "chunk_large_text t 40000 = Inr [t]"
    using chunk_large_text_single_sentence[of t 40000] a b d st by simp
  have f: "chunk_text t 40000 = Inr [t]"
    using chunk_text_single_sentence[OF a _ c, of 40000] b d by simp
  have g: "chunk_large_text (ascii ''aaaa\<newline>\<newline>bbbb\<newline>\<newline>cccc'') 8
       = Inr [ascii ''aaaa\<newline>\<newline>bbbb'', ascii ''cccc'']"
    by (simp add: chunk_large_text_def chunk_loop_def str_eval)
  have h: "utf8_len (ascii ''aaaa\<newline>\<newline>bbbb'') = 10"
    by (simp add: str_eval)
  show ?thesis using e f b g h unfolding t_def by blast
qed




section \<open>Properties of the stored metadata\<close>

lemma map_of_ensure_valid:
  "map_of d k = Some v \<Longrightarrow> is_basic v \<Longrightarrow> map_of (ensure_valid env d) k = Some v"
  by (induction env d rule: ensure_valid.induct) (auto split: if_splits)

lemma map_of_dict_set_same: "map_of (dict_set k v d) k = Some v"
  by (simp add: dict_set_def update_conv')

lemma map_of_dict_set_other: "k' \<noteq> k \<Longrightarrow> map_of (dict_set k v d) k' = map_of d k'"
  by (simp add: dict_set_def update_conv')

section \<open>Properties of the JSONL pipeline\<close>


lemma ensure_valid_basic: "(k, v) \<in> set (ensure_valid env d) \<Longrightarrow> is_basic v"
proof (induction env d rule: ensure_valid.induct)
  case (1 env)
  then show ?case by simp
next
  case (2 env key v' rest)
  then show ?case by (cases "v' = JNull"; cases "is_basic v'") auto
qed

lemma object_vectors_Inr:
  assumes "object_vectors env filename pos json_obj = Inr vs"
  shows "\<exists>d text_chunks t. json_obj = JObj d \<and>
           extract_text_content env json_obj = Inr t \<and>
           chunk_large_text t 40000 = Inr text_chunks \<and>
           vs = map (\<lambda>(chunk_index, chunk).
                       (jsonl_vector_id env d pos chunk_index chunk, chunk,
                        jsonl_metadata env d filename pos (length text_chunks) chunk_index chunk))
                  (enumerate 0 text_chunks)"
proof (cases json_obj)
  case (JObj d)
  then show ?thesis using assms
    by (auto split: sum.splits if_splits)
qed (use assms in \<open>simp_all split: sum.splits if_splits\<close>)

lemma object_vectors_basic:
  assumes "object_vectors env filename pos json_obj = Inr vs"
    and "(vid, t, md) \<in> set vs" and "(k, v) \<in> set md"
  shows "is_basic v"
proof -
  from object_vectors_Inr[OF assms(1)] obtain d text_chunks where
    vs: "vs = map (\<lambda>(chunk_index, chunk).
                       (jsonl_vector_id env d pos chunk_index chunk, chunk,
                        jsonl_metadata env d filename pos (length text_chunks) chunk_index chunk))
                  (enumerate 0 text_chunks)" by blast
  from assms(2) obtain i c where "md = jsonl_metadata env d filename pos (length text_chunks) i c"
    unfolding vs by auto
  then show ?thesis using assms(3) ensure_valid_basic unfolding jsonl_metadata_def by blast
qed

lemma in_batch_vectors:
  assumes "x \<in> set (batch_vectors (batch_outcomes env filename batch_start batch))"
  shows "\<exists>pos obj vs. object_vectors env filename pos obj = Inr vs \<and> x \<in> set vs"
proof -
  from assms obtain r where r: "r \<in> set (batch_outcomes env filename batch_start batch)"
    and x: "x \<in> set (case_sum (\<lambda>f. []) (\<lambda>vs. vs) r)"
    unfolding batch_vectors_def by auto
  from x obtain vs where rv: "r = Inr vs" and xv: "x \<in> set vs" by (cases r) auto
  from r obtain pos obj where "r = object_vectors env filename pos obj"
    unfolding batch_outcomes_def by auto
  with rv xv show ?thesis by metis
qed

lemma requests_process_one_batch:
  "requests (process_one_batch env filename batch_start batch stats) =
     requests stats @
       (if batch_vectors (batch_outcomes env filename batch_start batch) = [] then []
        else [batch_request (batch_vectors (batch_outcomes env filename batch_start batch))])"
  by (simp add: process_one_batch_def Let_def)


lemma batch_request_valid:
  "valid_requests [batch_request (batch_vectors (batch_outcomes env filename batch_start batch))]"
proof -
  have "is_basic v"
    if "md \<in> set (metadatas (batch_request (batch_vectors (batch_outcomes env filename batch_start batch))))"
      and "(k, v) \<in> set md" for md k v
  proof -
    from that(1) obtain vid t where
      "(vid, t, md) \<in> set (batch_vectors (batch_outcomes env filename batch_start batch))"
      unfolding batch_request_def by auto
    from in_batch_vectors[OF this] that(2) show ?thesis
      using object_vectors_basic by blast
  qed
  then show ?thesis unfolding valid_requests_def by auto
qed

lemma valid_requests_append:
  "valid_requests (xs @ ys) = (valid_requests xs \<and> valid_requests ys)"
  unfolding valid_requests_def by (simp add: ball_Un)

lemma process_one_batch_valid:
  assumes "valid_requests (requests stats)"
  shows "valid_requests (requests (process_one_batch env filename batch_start batch stats))"
  using assms batch_request_valid[of env filename batch_start batch]
  by (simp add: requests_process_one_batch valid_requests_append valid_requests_def[of "[]"])

lemma process_batches_valid:
  "valid_requests (requests stats) \<Longrightarrow>
   valid_requests (requests (process_batches env filename batch_size batch_start objs stats))"
proof (induction env filename batch_size batch_start objs stats rule: process_batches.induct)
  case (1 env filename batch_size batch_start objs stats)
  show ?case
  proof (cases "batch_size = 0 \<or> objs = []")
    case True
    then show ?thesis using "1.prems" by simp
  next
    case False
    then show ?thesis
      using "1.IH"[OF False process_one_batch_valid[OF "1.prems"]] by simp
  qed
qed



lemma py_str_cong: "py_repr env' = py_repr env \<Longrightarrow> py_str env' v = py_str env v"
  by (cases v) simp_all

lemma extract_text_content_cong:
  assumes "py_repr env' = py_repr env"
  shows "extract_text_content env' obj = extract_text_content env obj"
proof (cases obj)
  case (JObj d)
  then show ?thesis by (simp add: py_str_cong[OF assms] split: option.splits)
qed (simp_all only: extract_text_content.simps)

lemma jsonl_vector_id_cong:
  assumes "py_repr env' = py_repr env" and "md5_hexdigest env' = md5_hexdigest env"
  shows "jsonl_vector_id env' d pos k c = jsonl_vector_id env d pos k c"
  by (simp add: jsonl_vector_id_def py_str_cong[OF assms(1)] assms(2) split: option.splits)


lemma object_vectors_ids_cong:
  assumes "py_repr env' = py_repr env" and "md5_hexdigest env' = md5_hexdigest env"
  shows "outcome_ids (object_vectors env' filename' pos obj)
       = outcome_ids (object_vectors env filename pos obj)"
proof (cases "extract_text_content env obj")
  case (Inl e)
  then show ?thesis
    using extract_text_content_cong[OF assms(1), of obj] by (simp add: outcome_ids_def)
next
  case (Inr text_content)
  note tc = this
  have tc': "extract_text_content env' obj = Inr text_content"
    using extract_text_content_cong[OF assms(1), of obj] tc by simp
  show ?thesis
  proof (cases "chunk_large_text text_content 40000")
    case (Inl e)
    then show ?thesis using tc tc' by (simp add: outcome_ids_def)
  next
    case (Inr text_chunks)
    then show ?thesis using tc tc' jsonl_vector_id_cong[OF assms]
      by (cases obj) (simp_all add: outcome_ids_def case_prod_unfold)
  qed
qed

lemma ids_batch_vectors:
  "map fst (batch_vectors outcomes)
     = concat (map (case_sum (\<lambda>f. []) (\<lambda>vids. vids)) (map outcome_ids outcomes))"
proof (induction outcomes)
  case Nil
  then show ?case by (simp add: batch_vectors_def)
next
  case (Cons r rs)
  then show ?case by (cases r) (simp_all add: batch_vectors_def outcome_ids_def)
qed

lemma batch_ids_cong:
  assumes "py_repr env' = py_repr env" and "md5_hexdigest env' = md5_hexdigest env"
  shows "map fst (batch_vectors (batch_outcomes env' filename' batch_start batch))
       = map fst (batch_vectors (batch_outcomes env filename batch_start batch))"
proof -
  have "map outcome_ids (batch_outcomes env' filename' batch_start batch)
      = map outcome_ids (batch_outcomes env filename batch_start batch)"
    unfolding batch_outcomes_def map_map
    by (rule map_cong[OF refl]) (simp add: case_prod_unfold object_vectors_ids_cong[OF assms]
          del: object_vectors.simps)
  then show ?thesis by (simp only: ids_batch_vectors)
qed

lemma ids_batch_request: "ids (batch_request vectors) = map fst vectors"
  by (simp add: batch_request_def case_prod_unfold)

lemma process_one_batch_ids_cong:
  assumes "py_repr env' = py_repr env" and "md5_hexdigest env' = md5_hexdigest env"
    and "map ids (requests stats') = map ids (requests stats)"
  shows "map ids (requests (process_one_batch env' filename' batch_start batch stats'))
       = map ids (requests (process_one_batch env filename batch_start batch stats))"
proof -
  let ?v' = "batch_vectors (batch_outcomes env' filename' batch_start batch)"
  let ?v = "batch_vectors (batch_outcomes env filename batch_start batch)"
  have m: "map fst ?v' = map fst ?v" by (rule batch_ids_cong[OF assms(1,2)])
  have "length (map fst ?v') = length (map fst ?v)" by (simp only: m)
  then have "length ?v' = length ?v" by simp
  then have e: "(?v' = []) = (?v = [])" by (simp only: length_0_conv[symmetric])
  show ?thesis
    using assms(3) m e by (simp add: requests_process_one_batch ids_batch_request)
qed

lemma process_batches_ids_cong:
  "py_repr env' = py_repr env \<Longrightarrow> md5_hexdigest env' = md5_hexdigest env \<Longrightarrow>
   map ids (requests stats') = map ids (requests stats) \<Longrightarrow>
     map ids (requests (process_batches env' filename' batch_size batch_start objs stats'))
   = map ids (requests (process_batches env filename batch_size batch_start objs stats))"
proof (induction env filename batch_size batch_start objs stats arbitrary: stats'
        rule: process_batches.induct)
  case (1 env filename batch_size batch_start objs stats)
  show ?case
  proof (cases "batch_size = 0 \<or> objs = []")
    case True
    then show ?thesis using "1.prems" by auto
  next
    case False
    have "map ids (requests (process_one_batch env' filename' batch_start (take batch_size objs) stats'))
        = map ids (requests (process_one_batch env filename batch_start (take batch_size objs) stats))"
      by (rule process_one_batch_ids_cong[OF "1.prems"])
    from "1.IH"[OF False "1.prems"(1,2) this] show ?thesis using False by simp
  qed
qed

lemma stored_entries_batch_request: "stored_entries (batch_request vs) = vs"
  by (induction vs) (auto simp: stored_entries_def batch_request_def)

lemma in_batch_vectors_obj:
  assumes "x \<in> set (batch_vectors (batch_outcomes env filename batch_start batch))"
  shows "\<exists>pos obj vs. obj \<in> set batch \<and> object_vectors env filename pos obj = Inr vs \<and> x \<in> set vs"
proof -
  from assms obtain r where r: "r \<in> set (batch_outcomes env filename batch_start batch)"
    and x: "x \<in> set (case_sum (\<lambda>f. []) (\<lambda>vs. vs) r)"
    unfolding batch_vectors_def by auto
  from x obtain vs where rv: "r = Inr vs" and xv: "x \<in> set vs" by (cases r) auto
  from r obtain pos obj where po: "(pos, obj) \<in> set (enumerate batch_start batch)"
    and ro: "r = object_vectors env filename pos obj"
    unfolding batch_outcomes_def by auto
  from po have "obj \<in> set batch" by (auto simp: in_set_enumerate_eq)
  with rv xv ro show ?thesis by metis
qed


lemma object_vectors_entry:
  assumes "object_vectors env filename pos obj = Inr vs" and "x \<in> set vs" and "obj \<in> S"
  shows "jsonl_entry env filename S x"
proof -
  from object_vectors_Inr[OF assms(1)] obtain d text_chunks t where
    o: "obj = JObj d" and
    e: "extract_text_content env (JObj d) = Inr t" "chunk_large_text t 40000 = Inr text_chunks" and
    vs: "vs = map (\<lambda>(chunk_index, chunk).
                       (jsonl_vector_id env d pos chunk_index chunk, chunk,
                        jsonl_metadata env d filename pos (length text_chunks) chunk_index chunk))
                  (enumerate 0 text_chunks)" by blast
  from assms(2) obtain i c where
    "x = (jsonl_vector_id env d pos i c, c, jsonl_metadata env d filename pos (length text_chunks) i c)"
    and "c \<in> set text_chunks"
    unfolding vs by (auto simp: in_set_enumerate_eq)
  then show ?thesis using o e assms(3) unfolding jsonl_entry_def by blast
qed


lemma process_one_batch_entries:
  assumes "entries_ok env filename S (requests stats)" and "set batch \<subseteq> S"
  shows "entries_ok env filename S (requests (process_one_batch env filename batch_start batch stats))"
proof -
  have "jsonl_entry env filename S x"
    if "x \<in> set (batch_vectors (batch_outcomes env filename batch_start batch))" for x
  proof -
    from in_batch_vectors_obj[OF that] obtain pos obj vs where
      "obj \<in> set batch" "object_vectors env filename pos obj = Inr vs" "x \<in> set vs" by blast
    then show ?thesis using object_vectors_entry assms(2) by blast
  qed
  then show ?thesis
    using assms(1)
    by (auto simp: requests_process_one_batch entries_ok_def stored_entries_batch_request)
qed

lemma process_batches_entries:
  "entries_ok env filename S (requests stats) \<Longrightarrow> set objs \<subseteq> S \<Longrightarrow>
   entries_ok env filename S (requests (process_batches env filename batch_size batch_start objs stats))"
proof (induction env filename batch_size batch_start objs stats rule: process_batches.induct)
  case (1 env filename batch_size batch_start objs stats)
  show ?case
  proof (cases "batch_size = 0 \<or> objs = []")
    case True
    then show ?thesis using "1.prems" by simp
  next
    case False
    have t: "set (take batch_size objs) \<subseteq> S" using "1.prems"(2) set_take_subset by fastforce
    have d: "set (drop batch_size objs) \<subseteq> S" using "1.prems"(2) set_drop_subset by fastforce
    show ?thesis
      using "1.IH"[OF False process_one_batch_entries[OF "1.prems"(1) t] d] False by simp
  qed
qed

lemma jsonl_stored_entries:
  assumes "r \<in> set (requests (process_jsonl_batch env json_objects filename))"
    and "x \<in> set (stored_entries r)"
  shows "jsonl_entry env filename (set json_objects) x"
proof -
  have "entries_ok env filename (set json_objects)
          (requests (process_jsonl_batch env json_objects filename))"
    unfolding process_jsonl_batch_def
    by (rule process_batches_entries) (simp_all add: entries_ok_def)
  then show ?thesis using assms unfolding entries_ok_def by blast
qed

lemma upsert_texts_stored_entries:
  assumes "r \<in> set (snd (upsert_texts env t filename file_type))"
    and "x \<in> set (stored_entries r)"
  shows "\<exists>i n chunk. x = (doc_vector_id env i chunk, chunk,
                          doc_metadata env filename file_type i n chunk)"
  using assms
  by (fastforce simp: upsert_texts_def Let_def doc_request_def stored_entries_def
           split: if_splits sum.splits)


lemma process_one_batch_lengths:
  assumes "same_lengths (requests stats)"
  shows "same_lengths (requests (process_one_batch env filename batch_start batch stats))"
  using assms
  by (auto simp: requests_process_one_batch same_lengths_def batch_request_def)

lemma process_batches_lengths:
  "same_lengths (requests stats) \<Longrightarrow>
   same_lengths (requests (process_batches env filename batch_size batch_start objs stats))"
proof (induction env filename batch_size batch_start objs stats rule: process_batches.induct)
  case (1 env filename batch_size batch_start objs stats)
  show ?case
  proof (cases "batch_size = 0 \<or> objs = []")
    case True
    then show ?thesis using "1.prems" by simp
  next
    case False
    then show ?thesis
      using "1.IH"[OF False process_one_batch_lengths[OF "1.prems"]] by simp
  qed
qed

lemma jsonl_same_lengths:
  "same_lengths (requests (process_jsonl_batch env json_objects filename))"
  unfolding process_jsonl_batch_def
  by (rule process_batches_lengths) (simp add: same_lengths_def)

lemma upsert_texts_same_lengths:
  "same_lengths (snd (upsert_texts env t filename file_type))"
  by (auto simp: same_lengths_def upsert_texts_def Let_def doc_request_def
           split: if_splits sum.splits)

lemmas ingest_eval = process_jsonl_batch_def process_one_batch_def batch_outcomes_def
  batch_vectors_def batch_failed_def batch_request_def example_env_def later_env_def
  example_objects_def text_fields_def chunk_large_text_def jsonl_vector_id_def
  jsonl_metadata_def create_metadata_def get_or_empty_def add_site_def dict_set_def
  text_preview_def md5_table_def str_of_nat.simps str_of_int_def Let_def
  upsert_texts_def upsert_chunks_def doc_request_def doc_vector_id_def doc_metadata_def

lemma str_of_nat_digits: "str_of_nat n \<noteq> [] \<and> (\<forall>c \<in> set (str_of_nat n). 48 \<le> c \<and> c \<le> 57)"
proof (induction n rule: str_of_nat.induct)
  case (1 n)
  show ?case
  proof (cases "n < 10")
    case True
    then show ?thesis by (subst str_of_nat.simps, subst (2) str_of_nat.simps) simp
  next
    case False
    have "n mod 10 < 10" by simp
    then have "48 + n mod 10 \<le> 57" by linarith
    then show ?thesis using "1.IH"[OF False] False
      by (subst str_of_nat.simps, subst (2) str_of_nat.simps) auto
  qed
qed

lemma str_of_nat_inj: "str_of_nat n = str_of_nat m \<Longrightarrow> n = m"
proof (induction n arbitrary: m rule: str_of_nat.induct)
  case (1 n)
  show ?case
  proof (cases "n < 10")
    case True
    note n = this
    show ?thesis
    proof (cases "m < 10")
      case True
      then show ?thesis using n "1.prems"
        by (simp add: str_of_nat.simps[of n] str_of_nat.simps[of m])
    next
      case False
      have "str_of_nat (m div 10) \<noteq> []" using str_of_nat_digits by blast
      then show ?thesis using n False "1.prems"
        by (simp add: str_of_nat.simps[of n] str_of_nat.simps[of m] Cons_eq_append_conv)
    qed
  next
    case False
    note n = this
    show ?thesis
    proof (cases "m < 10")
      case True
      have "str_of_nat (n div 10) \<noteq> []" using str_of_nat_digits by blast
      then show ?thesis using n True "1.prems"
        by (simp add: str_of_nat.simps[of n] str_of_nat.simps[of m] append_eq_Cons_conv)
    next
      case False
      from "1.prems" n False have
        e: "str_of_nat (n div 10) = str_of_nat (m div 10)" and r: "n mod 10 = m mod 10"
        by (simp_all add: str_of_nat.simps[of n] str_of_nat.simps[of m])
      from "1.IH"[OF n e] have "n div 10 = m div 10" .
      with r show ?thesis by (metis div_mult_mod_eq)
    qed
  qed
qed

lemma str_of_int_inj: "str_of_int a = str_of_int b \<Longrightarrow> a = b"
proof -
  assume e: "str_of_int a = str_of_int b"
  have h: "hd (str_of_nat n) \<noteq> 45" for n
  proof -
    from str_of_nat_digits[of n] have "str_of_nat n \<noteq> []"
      and "\<forall>c \<in> set (str_of_nat n). 48 \<le> c \<and> c \<le> 57" by blast+
    then have "48 \<le> hd (str_of_nat n)" by (cases "str_of_nat n") auto
    then show ?thesis by simp
  qed
  have ne: "str_of_nat n \<noteq> 45 # xs" for n xs using h[of n] by (cases "str_of_nat n") auto
  show ?thesis
  proof (cases "a < 0"; cases "b < 0")
    assume "a < 0" "b < 0"
    with e have "str_of_nat (nat (- a)) = str_of_nat (nat (- b))" by (simp add: str_of_int_def)
    from str_of_nat_inj[OF this] show ?thesis using \<open>a < 0\<close> \<open>b < 0\<close> by simp
  next
    assume "a < 0" "\<not> b < 0"
    with e ne show ?thesis by (simp add: str_of_int_def) metis
  next
    assume "\<not> a < 0" "b < 0"
    with e ne show ?thesis by (simp add: str_of_int_def)
  next
    assume "\<not> a < 0" "\<not> b < 0"
    with e have "str_of_nat (nat a) = str_of_nat (nat b)" by (simp add: str_of_int_def)
    from str_of_nat_inj[OF this] show ?thesis using \<open>\<not> a < 0\<close> \<open>\<not> b < 0\<close> by simp
  qed
qed

lemma doc_vector_id_eq_iff:
  assumes "md5_hexdigest env' = md5_hexdigest env"
  shows "(doc_vector_id env' i chunk = doc_vector_id env i chunk)
           = (clock env' i 0 = clock env i 0)"
proof
  assume "doc_vector_id env' i chunk = doc_vector_id env i chunk"
  then have "str_of_int (clock env' i 0) = str_of_int (clock env i 0)"
    by (simp add: doc_vector_id_def assms)
  then show "clock env' i 0 = clock env i 0" by (rule str_of_int_inj)
next
  assume "clock env' i 0 = clock env i 0"
  then show "doc_vector_id env' i chunk = doc_vector_id env i chunk"
    by (simp add: doc_vector_id_def assms)
qed

lemma upsert_texts_ids_eq_iff:
  assumes "md5_hexdigest env' = md5_hexdigest env"
    and "vector_store_ready env' = vector_store_ready env"
  shows "(map ids (snd (upsert_texts env' t filename' file_type'))
            = map ids (snd (upsert_texts env t filename file_type)))
         = (\<forall>i < length (snd (upsert_texts env t filename file_type)).
              clock env' i 0 = clock env i 0)"
proof (cases "t = [] \<or> strip t = [] \<or> \<not> vector_store_ready env")
  case True
  then show ?thesis using assms(2) by (auto simp: upsert_texts_def)
next
  case False
  show ?thesis
  proof (cases "upsert_chunks t")
    case (Inl e)
    then show ?thesis using False assms(2) by (simp add: upsert_texts_def)
  next
    case (Inr chunks)
    have l: "map ids (snd (upsert_texts env' t filename' file_type'))
        = map (\<lambda>(i, chunk). [doc_vector_id env' i chunk]) (enumerate 0 chunks)"
      using False Inr assms(2)
      by (simp add: upsert_texts_def Let_def doc_request_def split_def)
    have r: "map ids (snd (upsert_texts env t filename file_type))
        = map (\<lambda>(i, chunk). [doc_vector_id env i chunk]) (enumerate 0 chunks)"
      using False Inr
      by (simp add: upsert_texts_def Let_def doc_request_def split_def)
    have n: "length (snd (upsert_texts env t filename file_type)) = length chunks"
      using False Inr by (simp add: upsert_texts_def Let_def)
    have "(map (\<lambda>(i, chunk). [doc_vector_id env' i chunk]) (enumerate 0 chunks)
           = map (\<lambda>(i, chunk). [doc_vector_id env i chunk]) (enumerate 0 chunks))
        = (\<forall>i < length chunks. clock env' i 0 = clock env i 0)"
    proof
      assume e: "map (\<lambda>(i, chunk). [doc_vector_id env' i chunk]) (enumerate 0 chunks)
           = map (\<lambda>(i, chunk). [doc_vector_id env i chunk]) (enumerate 0 chunks)"
      show "\<forall>i < length chunks. clock env' i 0 = clock env i 0"
      proof (intro allI impI)
        fix i
        assume i: "i < length chunks"
        then have "(i, chunks ! i) \<in> set (enumerate 0 chunks)"
          by (simp add: in_set_enumerate_eq)
        with e have "doc_vector_id env' i (chunks ! i) = doc_vector_id env i (chunks ! i)"
          by (auto simp: map_eq_conv)
        then show "clock env' i 0 = clock env i 0"
          by (simp add: doc_vector_id_eq_iff[OF assms(1)])
      qed
    next
      assume "\<forall>i < length chunks. clock env' i 0 = clock env i 0"
      then show "map (\<lambda>(i, chunk). [doc_vector_id env' i chunk]) (enumerate 0 chunks)
           = map (\<lambda>(i, chunk). [doc_vector_id env i chunk]) (enumerate 0 chunks)"
        by (auto simp: map_eq_conv in_set_enumerate_eq doc_vector_id_eq_iff[OF assms(1)])
    qed
    then show ?thesis unfolding l r n .
  qed
qed

text \<open>
  Claim C7, as stated, makes the vector id a function of content hash and position in
  every ingestion path. \<open>upsert_texts\<close> of \<open>rag.py\<close> stores the text \<open>a\<close> under an id
  that contains the second at which it runs: one second later the id is another.
\<close>

theorem doc_vector_id_changes_with_clock:
  "map ids (snd (upsert_texts (example_env 1700000000) (ascii ''a'') None None))
     = [[ascii ''doc_0cc175b9_1700000000_0'']]
   \<and> map ids (snd (upsert_texts (example_env 1700000001) (ascii ''a'') None None))
     = [[ascii ''doc_0cc175b9_1700000001_0'']]"
  by (simp add: ingest_eval str_eval)

text \<open>
  Claim C7, amended. In the JSONL pipeline the id of a stored chunk is
  \<open>f"{obj_id}_chunk_{chunk_index}_{chunk_hash}"\<close>: a function of the source id (the
  object's \<open>id\<close>, or its position in the file), the chunk index and the content hash,
  and of nothing else. Two runs over the same objects produce the same ids in the same
  order, whatever the clock, the file name and the outcome of the store calls. In
  \<open>upsert_texts\<close> of \<open>rag.py\<close> the id is \<open>f"doc_{chunk_hash}_{int(time.time())}_{i}"\<close>: it
  is fixed by the content hash, the chunk index and the clock, and two runs give a chunk
  the same id if and only if they read the same second for it; two runs of
  \<open>upsert_texts\<close> over the same text produce the same ids if and only if they read the
  same second for every chunk.
\<close>

theorem jsonl_vector_ids_deterministic:
  assumes "py_repr env' = py_repr env" and "md5_hexdigest env' = md5_hexdigest env"
  shows "map ids (requests (process_jsonl_batch env' json_objects filename'))
           = map ids (requests (process_jsonl_batch env json_objects filename))
       \<and> (md5_hexdigest env c1 = md5_hexdigest env c2 \<longrightarrow>
            jsonl_vector_id env d pos k c1 = jsonl_vector_id env d pos k c2)
       \<and> (doc_vector_id env' i chunk = doc_vector_id env i chunk)
           = (clock env' i 0 = clock env i 0)
       \<and> (vector_store_ready env' = vector_store_ready env \<longrightarrow>
            (map ids (snd (upsert_texts env' t fname' file_type'))
               = map ids (snd (upsert_texts env t fname file_type)))
            = (\<forall>j < length (snd (upsert_texts env t fname file_type)).
                 clock env' j 0 = clock env j 0))"
proof -
  have a: "map ids (requests (process_jsonl_batch env' json_objects filename'))
           = map ids (requests (process_jsonl_batch env json_objects filename))"
    unfolding process_jsonl_batch_def
    by (rule process_batches_ids_cong[OF assms]) simp
  have b: "md5_hexdigest env c1 = md5_hexdigest env c2 \<longrightarrow>
            jsonl_vector_id env d pos k c1 = jsonl_vector_id env d pos k c2"
    by (simp add: jsonl_vector_id_def)
  have c: "(doc_vector_id env' i chunk = doc_vector_id env i chunk)
           = (clock env' i 0 = clock env i 0)"
    by (rule doc_vector_id_eq_iff[OF assms(2)])
  have d: "vector_store_ready env' = vector_store_ready env \<longrightarrow>
            (map ids (snd (upsert_texts env' t fname' file_type'))
               = map ids (snd (upsert_texts env t fname file_type)))
            = (\<forall>j < length (snd (upsert_texts env t fname file_type)).
                 clock env' j 0 = clock env j 0)"
    using upsert_texts_ids_eq_iff[OF assms(2)] by blast
  show ?thesis using a b c d by blast
qed

text \<open>
  The example file a day later, under another name, with a clock that moves and a store
  that refuses every call: the ids of the JSONL pipeline are the same. The text \<open>a\<close> in
  \<open>upsert_texts\<close>: the same id as a run that read the same second, another id than the
  run of the day before.
\<close>

theorem jsonl_vector_ids_deterministic_witness:
  "py_repr later_env = py_repr (example_env 1700000000)
   \<and> md5_hexdigest later_env = md5_hexdigest (example_env 1700000000)
   \<and> map ids (requests (process_jsonl_batch later_env example_objects (ascii ''g.jsonl'')))
       = map ids (requests (process_jsonl_batch (example_env 1700000000) example_objects
                    (ascii ''f.jsonl'')))
   \<and> map ids (requests (process_jsonl_batch (example_env 1700000000) example_objects
                    (ascii ''f.jsonl'')))
       = [[ascii ''None_chunk_0_5d41402a'', ascii ''obj_1_chunk_0_0cc175b9'']]
   \<and> md5_hexdigest (example_env 1700000000) (ascii ''a'')
       = md5_hexdigest (example_env 1700000000) (ascii ''a'')
   \<and> clock later_env 0 0 = clock (example_env 1700086400) 0 0
   \<and> doc_vector_id later_env 0 (ascii ''a'')
       = doc_vector_id (example_env 1700086400) 0 (ascii ''a'')
   \<and> clock later_env 0 0 \<noteq> clock (example_env 1700000000) 0 0
   \<and> doc_vector_id later_env 0 (ascii ''a'')
       \<noteq> doc_vector_id (example_env 1700000000) 0 (ascii ''a'')
   \<and> vector_store_ready later_env = vector_store_ready (example_env 1700000000)
   \<and> length (snd (upsert_texts (example_env 1700000000) (ascii ''a'') None None)) = 1
   \<and> map ids (snd (upsert_texts later_env (ascii ''a'') None None))
       \<noteq> map ids (snd (upsert_texts (example_env 1700000000) (ascii ''a'') None None))"
proof -
  have a: "py_repr later_env = py_repr (example_env 1700000000)"
    by (simp add: later_env_def example_env_def)
  have b: "md5_hexdigest later_env = md5_hexdigest (example_env 1700000000)"
    by (simp add: later_env_def example_env_def)
  have a': "py_repr later_env = py_repr (example_env 1700086400)"
    by (simp add: later_env_def example_env_def)
  have b': "md5_hexdigest later_env = md5_hexdigest (example_env 1700086400)"
    by (simp add: later_env_def example_env_def)
  have c: "clock later_env 0 0 = clock (example_env 1700086400) 0 0"
    by (simp add: later_env_def example_env_def)
  have c': "clock later_env 0 0 \<noteq> clock (example_env 1700000000) 0 0"
    by (simp add: later_env_def example_env_def)
  have d: "map ids (requests (process_jsonl_batch (example_env 1700000000) example_objects
                    (ascii ''f.jsonl'')))
       = [[ascii ''None_chunk_0_5d41402a'', ascii ''obj_1_chunk_0_0cc175b9'']]"
    by (simp add: ingest_eval str_eval)
  have r: "vector_store_ready later_env = vector_store_ready (example_env 1700000000)"
    by (simp add: later_env_def example_env_def)
  have n: "length (snd (upsert_texts (example_env 1700000000) (ascii ''a'') None None)) = 1"
    by (simp add: ingest_eval str_eval)
  note run = jsonl_vector_ids_deterministic[OF a b, of example_objects "ascii ''g.jsonl''"
            "ascii ''f.jsonl''" _ _ _ _ _ 0 "ascii ''a''" "ascii ''a''" None None None None]
  note same = jsonl_vector_ids_deterministic[OF a' b', of _ _ _ _ _ _ _ _ 0 "ascii ''a''"]
  have j: "map ids (requests (process_jsonl_batch later_env example_objects (ascii ''g.jsonl'')))
       = map ids (requests (process_jsonl_batch (example_env 1700000000) example_objects
                    (ascii ''f.jsonl'')))"
    using run by blast
  have s: "doc_vector_id later_env 0 (ascii ''a'')
       = doc_vector_id (example_env 1700086400) 0 (ascii ''a'')"
    using same c by blast
  have s': "doc_vector_id later_env 0 (ascii ''a'')
       \<noteq> doc_vector_id (example_env 1700000000) 0 (ascii ''a'')"
    using run c' by blast
  have "\<not> (\<forall>j < length (snd (upsert_texts (example_env 1700000000) (ascii ''a'') None None)).
             clock later_env j 0 = clock (example_env 1700000000) j 0)"
    unfolding n using c' by simp
  with run r have u: "map ids (snd (upsert_texts later_env (ascii ''a'') None None))
       \<noteq> map ids (snd (upsert_texts (example_env 1700000000) (ascii ''a'') None None))"
    by blast
  show ?thesis using a b j d c s c' s' r n u by blast
qed

section \<open>The stored preview\<close>

lemma utf8_len_replicate_width: "utf8_len (replicate n c) = n * utf8_width c"
  by (induction n) (simp_all add: utf8_len_def)

text \<open>
  Claim C8, as stated, bounds the preview stored with a chunk by 500 characters.
  \<open>upsert_texts\<close> stores the text of 501 times \<open>a\<close> as one chunk of 501 characters, and
  the \<open>text\<close> field of the metadata stored with it has 503 characters.
\<close>

theorem text_preview_exceeds_500:
  "map (\<lambda>r. map (\<lambda>(vector_id, chunk, metadata).
                    (length chunk, map_of metadata (ascii ''text'')))
              (stored_entries r))
     (snd (upsert_texts (example_env 1700000000) (replicate 501 97) None None))
     = [[(501, Some (JStr (replicate 500 97 @ ascii ''...'')))]]
   \<and> length (replicate 500 97 @ ascii ''...'') = 503"
proof -
  define t :: str where "t = replicate 501 97"
  have a: "t \<noteq> []" by (simp add: t_def)
  have b: "strip t = t" by (simp add: t_def strip_def is_space_def)
  have c: "\<not> list_ex is_surrogate t" by (simp add: t_def list_ex_iff is_surrogate_def)
  have d: "utf8_len t = 501" by (simp add: t_def utf8_len_replicate_width utf8_width_def)
  have e: "text_preview t = replicate 500 97 @ ascii ''...''"
    by (simp add: t_def text_preview_def slice_to_def)
  have f: "length t = 501" by (simp add: t_def)
  have "snd (upsert_texts (example_env 1700000000) t None None)
      = [doc_request (example_env 1700000000) None None 1 0 t]"
    using a b c d by (simp add: upsert_texts_def upsert_chunks_def example_env_def)
  then have "map (\<lambda>r. map (\<lambda>(vector_id, chunk, metadata).
                       (length chunk, map_of metadata (ascii ''text'')))
                 (stored_entries r))
      (snd (upsert_texts (example_env 1700000000) t None None))
     = [[(501, Some (JStr (replicate 500 97 @ ascii ''...'')))]]"
    using e f by (simp add: doc_request_def stored_entries_def doc_metadata_def ascii_def)
  then show ?thesis unfolding t_def by (simp add: ascii_def)
qed

text \<open>
  Claim C8, amended. For every chunk stored in the vector index, by \<open>upsert_texts\<close> or
  by the JSONL pipeline, the \<open>text\<close> field of the metadata stored with it is the preview
  of that chunk: the chunk itself when it has at most 500 characters, and otherwise its
  first 500 characters followed by the three characters \<open>...\<close>, 503 characters in all.
  (In every call the lists of ids, texts and metadata have the same length, so
  \<open>stored_entries\<close> leaves no chunk out.)
\<close>

theorem text_preview_metadata:
  "(\<forall>r \<in> set (snd (upsert_texts env t filename file_type))
           \<union> set (requests (process_jsonl_batch env json_objects fname)).
      length (texts r) = length (ids r) \<and> length (metadatas r) = length (ids r)
      \<and> (\<forall>(vector_id, chunk, metadata) \<in> set (stored_entries r).
            map_of metadata (ascii ''text'') = Some (JStr (text_preview chunk))))
   \<and> text_preview chunk
       = (if length chunk \<le> 500 then chunk else take 500 chunk @ ascii ''...'')
   \<and> length (text_preview chunk) = (if length chunk \<le> 500 then length chunk else 503)
   \<and> map_of (doc_metadata env filename file_type i n chunk) (ascii ''text'')
       = Some (JStr (text_preview chunk))
   \<and> map_of (jsonl_metadata env d fname pos n k chunk) (ascii ''text'')
       = Some (JStr (text_preview chunk))"
proof -
  have a: "text_preview chunk
      = (if length chunk \<le> 500 then chunk else take 500 chunk @ ascii ''...'')"
    by (simp add: text_preview_def slice_to_def)
  have b: "length (text_preview chunk) = (if length chunk \<le> 500 then length chunk else 503)"
    by (simp add: a ascii_def)
  have c: "map_of (doc_metadata env filename file_type i n chunk) (ascii ''text'')
      = Some (JStr (text_preview chunk))" for i n chunk
    by (simp add: doc_metadata_def ascii_def)
  have ne: "ascii ''text'' \<noteq> ascii ''total_chunks''" by (simp add: ascii_def)
  have d: "map_of (jsonl_metadata env d fname pos n k chunk) (ascii ''text'')
      = Some (JStr (text_preview chunk))" for d pos n k chunk
    unfolding jsonl_metadata_def
    by (rule map_of_ensure_valid)
       (simp_all add: map_of_dict_set_other[OF ne] map_of_dict_set_same)
  have s: "\<forall>r \<in> set (snd (upsert_texts env t filename file_type))
           \<union> set (requests (process_jsonl_batch env json_objects fname)).
      length (texts r) = length (ids r) \<and> length (metadatas r) = length (ids r)
      \<and> (\<forall>(vector_id, chunk, metadata) \<in> set (stored_entries r).
            map_of metadata (ascii ''text'') = Some (JStr (text_preview chunk)))"
  proof
    fix r
    assume r: "r \<in> set (snd (upsert_texts env t filename file_type))
          \<union> set (requests (process_jsonl_batch env json_objects fname))"
    have l: "length (texts r) = length (ids r) \<and> length (metadatas r) = length (ids r)"
      using r upsert_texts_same_lengths[of env t filename file_type]
        jsonl_same_lengths[of env json_objects fname]
      unfolding same_lengths_def by blast
    have "case x of (vector_id, chunk, metadata) \<Rightarrow>
        map_of metadata (ascii ''text'') = Some (JStr (text_preview chunk))"
      if x: "x \<in> set (stored_entries r)" for x
      using r
    proof
      assume "r \<in> set (snd (upsert_texts env t filename file_type))"
      from upsert_texts_stored_entries[OF this x] show ?thesis using c by auto
    next
      assume "r \<in> set (requests (process_jsonl_batch env json_objects fname))"
      from jsonl_stored_entries[OF this x] show ?thesis
        using d unfolding jsonl_entry_def by auto
    qed
    with l show "length (texts r) = length (ids r) \<and> length (metadatas r) = length (ids r)
      \<and> (\<forall>(vector_id, chunk, metadata) \<in> set (stored_entries r).
            map_of metadata (ascii ''text'') = Some (JStr (text_preview chunk)))"
      by blast
  qed
  show ?thesis using s a b c d by blast
qed

text \<open>The stored chunk of 501 characters and its preview of 503.\<close>

theorem text_preview_metadata_witness:
  "doc_request (example_env 1700000000) None None 1 0 (replicate 501 97)
     \<in> set (snd (upsert_texts (example_env 1700000000) (replicate 501 97) None None))
          \<union> set (requests (process_jsonl_batch (example_env 1700000000) example_objects
                   (ascii ''f.jsonl'')))
   \<and> (doc_vector_id (example_env 1700000000) 0 (replicate 501 97), replicate 501 97,
       doc_metadata (example_env 1700000000) None None 0 1 (replicate 501 97))
       \<in> set (stored_entries
                (doc_request (example_env 1700000000) None None 1 0 (replicate 501 97)))
   \<and> map_of (doc_metadata (example_env 1700000000) None None 0 1 (replicate 501 97))
        (ascii ''text'') = Some (JStr (text_preview (replicate 501 97)))
   \<and> text_preview (replicate 501 97) = take 500 (replicate 501 97) @ ascii ''...''
   \<and> length (text_preview (replicate 501 97)) = 503"
proof -
  define t :: str where "t = replicate 501 97"
  define E where "E = example_env 1700000000"
  have a: "t \<noteq> []" by (simp add: t_def)
  have b: "strip t = t" by (simp add: t_def strip_def is_space_def)
  have c: "\<not> list_ex is_surrogate t" by (simp add: t_def list_ex_iff is_surrogate_def)
  have d: "utf8_len t = 501" by (simp add: t_def utf8_len_replicate_width utf8_width_def)
  have f: "\<not> length t \<le> 500" by (simp add: t_def)
  have r: "snd (upsert_texts E t None None) = [doc_request E None None 1 0 t]"
    using a b c d by (simp add: upsert_texts_def upsert_chunks_def example_env_def E_def)
  have m: "doc_request E None None 1 0 t
     \<in> set (snd (upsert_texts E t None None))
          \<union> set (requests (process_jsonl_batch E example_objects (ascii ''f.jsonl'')))"
    by (simp add: r)
  have x: "(doc_vector_id E 0 t, t, doc_metadata E None None 0 1 t)
       \<in> set (stored_entries (doc_request E None None 1 0 t))"
    by (simp add: doc_request_def stored_entries_def)
  from text_preview_metadata[of E t None None example_objects "ascii ''f.jsonl''" t] m x f
  have "map_of (doc_metadata E None None 0 1 t) (ascii ''text'')
          = Some (JStr (text_preview t))
      \<and> text_preview t = take 500 t @ ascii ''...''
      \<and> length (text_preview t) = 503"
    by fastforce
  with m x show ?thesis unfolding t_def E_def by blast
qed

section \<open>Properties of retrieval\<close>

text \<open>
  Claim C2 asks that a query for which nothing is retrieved still gets a non-empty
  answer saying so, and no error. The two response paths are evaluated in an environment
  where the store is there, the query embeds to \<open>v\<close> and the index returns no match.
  The WebSocket path (\<open>stream_rag_response\<close>) returns the fixed sentence
  \<open>no_information_text\<close>. The request/response path (\<open>Chatbot.rag_response\<close>, and
  \<open>ai_response\<close> for the intent \<open>rp\<close>) returns \<open>None\<close>: the message of the turn is
  null. And when the embedding is the empty vector and the index refuses it with the
  exception \<open>e\<close>, the exception is raised on, as an \<open>HTTPException\<close> with status 500.
\<close>

theorem rag_response_without_context:
  "rag_response
     (env\<lparr>get_vector_store := None, embed_text := (\<lambda>q. Inr v),
          index_query := (\<lambda>v. Inr (Some []))\<rparr>) query = Inr None
   \<and> ai_response
     (env\<lparr>get_vector_store := None, embed_text := (\<lambda>q. Inr v),
          index_query := (\<lambda>v. Inr (Some []))\<rparr>) query (ascii ''rp'') = Inr (None, menu_more)
   \<and> stream_rag_response
     (env\<lparr>get_vector_store := None, embed_text := (\<lambda>q. Inr v),
          index_query := (\<lambda>v. Inr (Some []))\<rparr>) query = ([], Inr no_information_text)
   \<and> rag_response
     (env\<lparr>get_vector_store := None, embed_text := (\<lambda>q. Inr []),
          index_query := (\<lambda>v. if v = [] then Inl e else index_query env v)\<rparr>) query
       = Inl (HTTPException 500 (ascii ''Query failed: '' @ error_text env e))"
  by (simp add: rag_response_def ai_response_def stream_rag_response_def retrieve_context_def
        query_by_text_def ascii_def)

section \<open>The metadata of the JSONL pipeline\<close>

lemma keys_dict_set: "fst ` set (dict_set k v d) = insert k (fst ` set d)"
  by (simp add: dict_set_def dom_update)

lemma keys_ensure_valid: "(k, v) \<in> set (ensure_valid env d) \<Longrightarrow> k \<in> fst ` set d"
proof (induction env d rule: ensure_valid.induct)
  case (1 env)
  then show ?case by simp
next
  case (2 env key v' rest)
  then show ?case by (cases "v' = JNull"; cases "is_basic v'") auto
qed

lemma keys_add_extra:
  "fst ` set (add_extra_metadata env md extra)
     \<subseteq> fst ` set md \<union> {k. \<exists>v'. (k, v') \<in> set extra \<and> v' \<noteq> JNull}"
proof (induction env md extra rule: add_extra_metadata.induct)
  case (1 env metadata)
  then show ?case by simp
next
  case (2 env metadata key v rest)
  show ?case
  proof (cases "v = JNull")
    case True
    then show ?thesis using 2 by auto
  next
    case False
    then show ?thesis using 2 by (cases "is_basic v") (auto simp: keys_dict_set)
  qed
qed

lemma map_of_add_extra_skip:
  "(\<And>v'. (k, v') \<in> set extra \<Longrightarrow> v' = JNull) \<Longrightarrow>
   map_of (add_extra_metadata env md extra) k = map_of md k"
proof (induction env md extra rule: add_extra_metadata.induct)
  case (1 env metadata)
  then show ?case by simp
next
  case (2 env metadata key v rest)
  have rest: "\<And>v'. (k, v') \<in> set rest \<Longrightarrow> v' = JNull" using "2.prems" by auto
  note ih = "2.IH"[OF rest]
  show ?case
  proof (cases "v = JNull")
    case True
    then show ?thesis using ih by simp
  next
    case False
    then have kk: "k \<noteq> key" using "2.prems"[of v] by auto
    show ?thesis using ih False kk
      by (cases "is_basic v") (simp_all add: map_of_dict_set_other)
  qed
qed

lemma map_of_filter_nonnull:
  "map_of md k = Some v \<Longrightarrow> v \<noteq> JNull \<Longrightarrow>
   map_of (filter (\<lambda>(key, v). v \<noteq> JNull) md) k = Some v"
  by (induction md) (auto split: if_splits)

lemma create_metadata_extra:
  "(case map_of d (ascii ''metadata'') of
      Some (JObj extra) \<Rightarrow> add_extra_metadata env md extra | _ \<Rightarrow> md)
   = add_extra_metadata env md (extra_metadata d)"
  by (simp add: extra_metadata_def split: option.splits json.splits)

lemma keys_add_site: "fst ` set (add_site env d md) \<subseteq> insert (ascii ''site'') (fst ` set md)"
  by (auto simp: add_site_def keys_dict_set split: option.splits sum.splits if_splits)

lemma map_of_add_site_other:
  "k \<noteq> ascii ''site'' \<Longrightarrow> map_of (add_site env d md) k = map_of md k"
  by (simp add: add_site_def map_of_dict_set_other split: option.splits sum.splits)

lemma create_metadata_alt:
  "create_metadata env d filename pos chunk_index =
     filter (\<lambda>(key, v). v \<noteq> JNull)
       (add_site env d
          (add_extra_metadata env (base_metadata env d filename pos chunk_index)
             (extra_metadata d)))"
  by (simp add: create_metadata_def base_metadata_def Let_def create_metadata_extra)

lemma keys_base: "fst ` set (base_metadata env d filename pos chunk_index) \<subseteq> set fixed_keys"
  by (simp add: base_metadata_def fixed_keys_def)

lemma create_metadata_keys:
  assumes "(k, v) \<in> set (create_metadata env d filename pos chunk_index)"
  shows "k \<in> set fixed_keys \<or> (\<exists>v'. (k, v') \<in> set (extra_metadata d) \<and> v' \<noteq> JNull)"
proof -
  let ?b = "base_metadata env d filename pos chunk_index"
  let ?e = "add_extra_metadata env ?b (extra_metadata d)"
  from assms have "(k, v) \<in> set (add_site env d ?e)" by (simp add: create_metadata_alt)
  then have "k \<in> fst ` set (add_site env d ?e)" by force
  then have "k \<in> insert (ascii ''site'') (fst ` set ?e)" using keys_add_site by blast
  then have "k = ascii ''site'' \<or> k \<in> fst ` set ?b
      \<or> (\<exists>v'. (k, v') \<in> set (extra_metadata d) \<and> v' \<noteq> JNull)"
    using keys_add_extra[of env ?b "extra_metadata d"] by blast
  moreover have "ascii ''site'' \<in> set fixed_keys" by (simp add: fixed_keys_def)
  ultimately show ?thesis using keys_base[of env d filename pos chunk_index] by blast
qed

lemma jsonl_metadata_keys:
  assumes "(k, v) \<in> set (jsonl_metadata env d filename pos n chunk_index chunk)"
  shows "k \<in> set fixed_keys \<or> (\<exists>v'. (k, v') \<in> set (extra_metadata d) \<and> v' \<noteq> JNull)"
proof -
  let ?c = "create_metadata env d filename pos chunk_index"
  from keys_ensure_valid[OF assms[unfolded jsonl_metadata_def]]
  have "k = ascii ''total_chunks'' \<or> k = ascii ''text'' \<or> k \<in> fst ` set ?c"
    by (auto simp: keys_dict_set)
  moreover have "ascii ''total_chunks'' \<in> set fixed_keys" "ascii ''text'' \<in> set fixed_keys"
    by (simp_all add: fixed_keys_def)
  ultimately show ?thesis using create_metadata_keys by fastforce
qed

lemma get_or_empty_falsy:
  "(\<And>v. map_of d key = Some v \<Longrightarrow> \<not> truthy v) \<Longrightarrow> get_or_empty d key = JStr []"
  by (simp add: get_or_empty_def split: option.splits)

lemma base_falsy_field:
  assumes "field \<in> set [ascii ''id'', ascii ''url'', ascii ''title'', ascii ''section'']"
    and "get_or_empty d field = JStr []"
  shows "map_of (base_metadata env d filename pos chunk_index) field = Some (JStr [])"
proof -
  from assms(1) consider "field = ascii ''id''" | "field = ascii ''url''"
    | "field = ascii ''title''" | "field = ascii ''section''" by auto
  then show ?thesis
  proof cases
    case 1 then show ?thesis using assms(2) by (simp add: base_metadata_def ascii_def)
  next
    case 2 then show ?thesis using assms(2) by (simp add: base_metadata_def ascii_def)
  next
    case 3 then show ?thesis using assms(2) by (simp add: base_metadata_def ascii_def)
  next
    case 4 then show ?thesis using assms(2) by (simp add: base_metadata_def ascii_def)
  qed
qed

lemma jsonl_metadata_falsy_field:
  assumes "field \<in> set [ascii ''id'', ascii ''url'', ascii ''title'', ascii ''section'']"
    and "\<And>v. map_of d field = Some v \<Longrightarrow> \<not> truthy v"
    and "\<And>v'. (field, v') \<in> set (extra_metadata d) \<Longrightarrow> v' = JNull"
  shows "map_of (jsonl_metadata env d filename pos n chunk_index chunk) field = Some (JStr [])"
proof -
  have ne: "field \<noteq> ascii ''site''" "field \<noteq> ascii ''text''" "field \<noteq> ascii ''total_chunks''"
    using assms(1) by (auto simp: ascii_def)
  have "map_of (add_extra_metadata env (base_metadata env d filename pos chunk_index)
          (extra_metadata d)) field = Some (JStr [])"
    using map_of_add_extra_skip[of field "extra_metadata d" env] assms(3)
      base_falsy_field[OF assms(1) get_or_empty_falsy[of d field]] assms(2) by simp
  then have "map_of (create_metadata env d filename pos chunk_index) field = Some (JStr [])"
    unfolding create_metadata_alt
    by (intro map_of_filter_nonnull) (simp_all add: map_of_add_site_other[OF ne(1)])
  then show ?thesis
    unfolding jsonl_metadata_def
    by (intro map_of_ensure_valid) (simp_all add: map_of_dict_set_other ne)
qed

text \<open>
  Claim C9, as stated, has every key whose value would be null dropped before the call
  of the store. The object of the example file below has a null \<open>id\<close>: the key \<open>id\<close> is
  not dropped, the metadata stored with the chunk of this object holds it with the
  empty string as its value.
\<close>

theorem jsonl_null_id_kept:
  "map (\<lambda>r. map (\<lambda>(vector_id, chunk, metadata). (chunk, map_of metadata (ascii ''id'')))
              (stored_entries r))
     (requests (process_jsonl_batch (example_env 1700000000)
        [JObj [(ascii ''text'', JStr (ascii ''hello'')), (ascii ''id'', JNull)]]
        (ascii ''f.jsonl'')))
     = [[(ascii ''hello'', Some (JStr []))]]"
  by (simp add: ingest_eval str_eval stored_entries_def)

text \<open>
  Claim C9, amended. Whatever JSON values a file holds, every metadata dictionary that
  \<open>process_jsonl_batch\<close> hands to the store's \<open>upsert_texts\<close> is free of \<open>None\<close>: every
  value in it is a \<open>str\<close>, an \<open>int\<close>, a \<open>float\<close> or a \<open>bool\<close>. The metadata stored with a
  chunk belongs to an object \<open>d\<close> of the file of whose text the chunk is a part, and

  \<^item> a key of it is one of the eleven keys the pipeline writes itself, or a key that the
    \<open>metadata\<close> dictionary of \<open>d\<close> holds with a value other than \<open>None\<close>: an entry of that
    dictionary whose value is \<open>None\<close> is not copied;

  \<^item> an \<open>id\<close>, \<open>url\<close>, \<open>title\<close> or \<open>section\<close> of \<open>d\<close> that is \<open>None\<close> (or absent) is not
    dropped: unless the \<open>metadata\<close> dictionary of \<open>d\<close> sets the key, it is stored with the
    empty string as its value.
\<close>

theorem jsonl_metadata_no_null:
  "\<forall>r \<in> set (requests (process_jsonl_batch env json_objects filename)).
     (\<forall>md \<in> set (metadatas r). \<forall>(k, v) \<in> set md. v \<noteq> JNull \<and> is_basic v)
     \<and> length (texts r) = length (ids r) \<and> length (metadatas r) = length (ids r)
     \<and> (\<forall>(vector_id, chunk, metadata) \<in> set (stored_entries r).
          \<exists>d t cs. JObj d \<in> set json_objects
            \<and> extract_text_content env (JObj d) = Inr t
            \<and> chunk_large_text t 40000 = Inr cs \<and> chunk \<in> set cs
            \<and> (\<forall>k v. (k, v) \<in> set metadata \<longrightarrow>
                  k \<in> set fixed_keys
                  \<or> (\<exists>v'. (k, v') \<in> set (extra_metadata d) \<and> v' \<noteq> JNull))
            \<and> (\<forall>field \<in> set [ascii ''id'', ascii ''url'', ascii ''title'', ascii ''section''].
                  map_of d field \<in> {None, Some JNull}
                  \<and> (\<forall>v'. (field, v') \<in> set (extra_metadata d) \<longrightarrow> v' = JNull)
                  \<longrightarrow> map_of metadata field = Some (JStr [])))"
proof
  fix r
  assume r: "r \<in> set (requests (process_jsonl_batch env json_objects filename))"
  have "valid_requests (requests (process_jsonl_batch env json_objects filename))"
    unfolding process_jsonl_batch_def
    by (rule process_batches_valid) (simp add: valid_requests_def)
  then have a: "\<forall>md \<in> set (metadatas r). \<forall>(k, v) \<in> set md. v \<noteq> JNull \<and> is_basic v"
    using r unfolding valid_requests_def by fastforce
  have l: "length (texts r) = length (ids r) \<and> length (metadatas r) = length (ids r)"
    using r jsonl_same_lengths[of env json_objects filename] unfolding same_lengths_def by blast
  have e: "case x of (vector_id, chunk, metadata) \<Rightarrow>
          \<exists>d t cs. JObj d \<in> set json_objects
            \<and> extract_text_content env (JObj d) = Inr t
            \<and> chunk_large_text t 40000 = Inr cs \<and> chunk \<in> set cs
            \<and> (\<forall>k v. (k, v) \<in> set metadata \<longrightarrow>
                  k \<in> set fixed_keys
                  \<or> (\<exists>v'. (k, v') \<in> set (extra_metadata d) \<and> v' \<noteq> JNull))
            \<and> (\<forall>field \<in> set [ascii ''id'', ascii ''url'', ascii ''title'', ascii ''section''].
                  map_of d field \<in> {None, Some JNull}
                  \<and> (\<forall>v'. (field, v') \<in> set (extra_metadata d) \<longrightarrow> v' = JNull)
                  \<longrightarrow> map_of metadata field = Some (JStr []))"
    if x: "x \<in> set (stored_entries r)" for x
  proof -
    from jsonl_stored_entries[OF r x] obtain pos d n k chunk t cs where
      d: "JObj d \<in> set json_objects" "extract_text_content env (JObj d) = Inr t"
         "chunk_large_text t 40000 = Inr cs" "chunk \<in> set cs" and
      xe: "x = (jsonl_vector_id env d pos k chunk, chunk,
                jsonl_metadata env d filename pos n k chunk)"
      unfolding jsonl_entry_def by blast
    have ks: "\<forall>key v. (key, v) \<in> set (jsonl_metadata env d filename pos n k chunk) \<longrightarrow>
                  key \<in> set fixed_keys
                  \<or> (\<exists>v'. (key, v') \<in> set (extra_metadata d) \<and> v' \<noteq> JNull)"
      using jsonl_metadata_keys by blast
    have fs: "\<forall>field \<in> set [ascii ''id'', ascii ''url'', ascii ''title'', ascii ''section''].
                  map_of d field \<in> {None, Some JNull}
                  \<and> (\<forall>v'. (field, v') \<in> set (extra_metadata d) \<longrightarrow> v' = JNull)
                  \<longrightarrow> map_of (jsonl_metadata env d filename pos n k chunk) field
                        = Some (JStr [])"
      using jsonl_metadata_falsy_field[of _ d env filename pos n k chunk] by fastforce
    show ?thesis unfolding xe using d ks fs by blast
  qed
  from a l e show "(\<forall>md \<in> set (metadatas r). \<forall>(k, v) \<in> set md. v \<noteq> JNull \<and> is_basic v)
     \<and> length (texts r) = length (ids r) \<and> length (metadatas r) = length (ids r)
     \<and> (\<forall>(vector_id, chunk, metadata) \<in> set (stored_entries r).
          \<exists>d t cs. JObj d \<in> set json_objects
            \<and> extract_text_content env (JObj d) = Inr t
            \<and> chunk_large_text t 40000 = Inr cs \<and> chunk \<in> set cs
            \<and> (\<forall>k v. (k, v) \<in> set metadata \<longrightarrow>
                  k \<in> set fixed_keys
                  \<or> (\<exists>v'. (k, v') \<in> set (extra_metadata d) \<and> v' \<noteq> JNull))
            \<and> (\<forall>field \<in> set [ascii ''id'', ascii ''url'', ascii ''title'', ascii ''section''].
                  map_of d field \<in> {None, Some JNull}
                  \<and> (\<forall>v'. (field, v') \<in> set (extra_metadata d) \<longrightarrow> v' = JNull)
                  \<longrightarrow> map_of metadata field = Some (JStr [])))"
    by blast
qed

text \<open>
  On the example file, whose first object has the text \<open>hello\<close>, a null \<open>id\<close>, a null
  metadata entry \<open>lang\<close> and a list-valued entry \<open>tags\<close>: the entry \<open>tags\<close> reaches the
  store as the text of the list, \<open>lang\<close> does not reach it, and \<open>id\<close> reaches it as the
  empty string.
\<close>

theorem jsonl_metadata_no_null_witness:
  "hd (requests (process_jsonl_batch (example_env 1700000000) example_objects (ascii ''f.jsonl'')))
     \<in> set (requests (process_jsonl_batch (example_env 1700000000) example_objects
               (ascii ''f.jsonl'')))
   \<and> hd (stored_entries (hd (requests (process_jsonl_batch (example_env 1700000000)
            example_objects (ascii ''f.jsonl'')))))
       \<in> set (stored_entries (hd (requests (process_jsonl_batch (example_env 1700000000)
            example_objects (ascii ''f.jsonl'')))))
   \<and> (case hd (stored_entries (hd (requests (process_jsonl_batch (example_env 1700000000)
            example_objects (ascii ''f.jsonl''))))) of
        (vector_id, chunk, metadata) \<Rightarrow>
          chunk = ascii ''hello''
          \<and> metadata \<in> set (metadatas (hd (requests (process_jsonl_batch
                (example_env 1700000000) example_objects (ascii ''f.jsonl'')))))
          \<and> (ascii ''tags'', JStr (ascii ''[]'')) \<in> set metadata
          \<and> JStr (ascii ''[]'') \<noteq> JNull \<and> is_basic (JStr (ascii ''[]''))
          \<and> map_of metadata (ascii ''lang'') = None
          \<and> map_of metadata (ascii ''id'') = Some (JStr []))"
proof -
  define E where "E = example_env 1700000000"
  define R where "R = requests (process_jsonl_batch E example_objects (ascii ''f.jsonl''))"
  define d1 :: dict where
    "d1 = [(ascii ''text'', JStr (ascii ''hello'')), (ascii ''id'', JNull),
           (ascii ''metadata'', JObj [(ascii ''lang'', JNull), (ascii ''tags'', JArr [])])]"
  define md where "md = jsonl_metadata E d1 (ascii ''f.jsonl'') 0 1 0 (ascii ''hello'')"
  define vid where "vid = jsonl_vector_id E d1 0 0 (ascii ''hello'')"
  have R1: "hd R \<in> set R"
    unfolding R_def E_def by (simp add: ingest_eval str_eval)
  have se: "hd (stored_entries (hd R)) = (vid, ascii ''hello'', md)"
    unfolding R_def E_def md_def vid_def d1_def
    by (simp add: ingest_eval str_eval stored_entries_def)
  have x: "(vid, ascii ''hello'', md) \<in> set (stored_entries (hd R))"
    unfolding R_def E_def md_def vid_def d1_def
    by (simp add: ingest_eval str_eval stored_entries_def)
  have m: "md \<in> set (metadatas (hd R))"
    unfolding R_def E_def md_def d1_def
    by (simp add: ingest_eval str_eval)
  have tg: "(ascii ''tags'', JStr (ascii ''[]'')) \<in> set md"
    unfolding E_def md_def d1_def by (simp add: ingest_eval str_eval)
  note inst = jsonl_metadata_no_null[of E example_objects "ascii ''f.jsonl''", folded R_def]
  from inst R1 m tg have b: "JStr (ascii ''[]'') \<noteq> JNull \<and> is_basic (JStr (ascii ''[]''))"
    by fastforce
  from inst R1 x obtain d t cs where
    d: "JObj d \<in> set example_objects" and
    t: "extract_text_content E (JObj d) = Inr t" and
    cs: "chunk_large_text t 40000 = Inr cs" "ascii ''hello'' \<in> set cs" and
    ks: "\<forall>k v. (k, v) \<in> set md \<longrightarrow> k \<in> set fixed_keys
            \<or> (\<exists>v'. (k, v') \<in> set (extra_metadata d) \<and> v' \<noteq> JNull)" and
    fs: "\<forall>field \<in> set [ascii ''id'', ascii ''url'', ascii ''title'', ascii ''section''].
            map_of d field \<in> {None, Some JNull}
            \<and> (\<forall>v'. (field, v') \<in> set (extra_metadata d) \<longrightarrow> v' = JNull)
            \<longrightarrow> map_of md field = Some (JStr [])"
    by fastforce
  have dd: "d = d1"
  proof (rule ccontr)
    assume "d \<noteq> d1"
    with d have d2: "d = [(ascii ''title'', JStr (ascii ''a''))]"
      by (simp add: example_objects_def d1_def)
    from t have "t = ascii ''a''"
      unfolding d2 E_def by (simp add: ingest_eval str_eval)
    with cs show False by (auto simp: ingest_eval str_eval)
  qed
  have ex: "extra_metadata d1 = [(ascii ''lang'', JNull), (ascii ''tags'', JArr [])]"
    by (simp add: extra_metadata_def d1_def ascii_def)
  have "ascii ''lang'' \<notin> fst ` set md"
  proof
    assume "ascii ''lang'' \<in> fst ` set md"
    then obtain v where "(ascii ''lang'', v) \<in> set md" by auto
    with ks have "ascii ''lang'' \<in> set fixed_keys
        \<or> (\<exists>v'. (ascii ''lang'', v') \<in> set (extra_metadata d) \<and> v' \<noteq> JNull)" by blast
    then show False unfolding dd ex by (simp add: fixed_keys_def ascii_def)
  qed
  then have lang: "map_of md (ascii ''lang'') = None" by (simp add: map_of_eq_None_iff)
  have "map_of d1 (ascii ''id'') \<in> {None, Some JNull}
      \<and> (\<forall>v'. (ascii ''id'', v') \<in> set (extra_metadata d1) \<longrightarrow> v' = JNull)"
    unfolding ex by (simp add: d1_def ascii_def)
  moreover have "ascii ''id''
      \<in> set [ascii ''id'', ascii ''url'', ascii ''title'', ascii ''section'']" by simp
  ultimately have idk: "map_of md (ascii ''id'') = Some (JStr [])"
    using fs unfolding dd by blast
  show ?thesis
    using R1 x m tg b lang idk unfolding se R_def[symmetric] E_def[symmetric]
    by simp
qed

section \<open>The intent classifier\<close>







section \<open>Malformed lines of an uploaded file\<close>






end
